theory Spec2Isabelle
  imports Complex_Main "HOL-Library.Word"
begin

section \<open>Conventions\<close>

text \<open>
  The repository is a browser audio visualiser written in JavaScript. Its numbers are
  IEEE doubles; here they are real numbers, so rounding is not modelled. The one
  non-finite outcome the code can produce, \<open>0/0\<close>, is written out as the error
  \<open>NotFinite\<close>. The per-bar arrays are created with one entry per bar and never resized;
  were an index to fall beyond the end of one, the read would give \<open>undefined\<close>, and
  the model stops there with the error \<open>MissingElement\<close>. A \<open>Uint8Array\<close> is a list of
  8-bit words. \<open>Date.now()\<close>, the handle returned by \<open>requestAnimationFrame\<close>, the
  analyser's magnitudes, the fullscreen class of the page and \<open>Math.random()\<close> are
  inputs of a tick. Drawing is left out: it writes to the canvas only.
\<close>

type_synonym byte = "8 word"

datatype error = AudioNotInitialized | NotFinite | MissingElement

record tick =
  snapshot :: "nat \<Rightarrow> byte"
  now :: int
  frameId :: nat
  fullscreen :: bool
  randoms :: "nat \<Rightarrow> real \<times> real \<times> real"

text \<open>\<open>analyser.getByteFrequencyData(dataArray)\<close> fills the array, whose length is fixed.\<close>

definition getByteFrequencyData :: "nat \<Rightarrow> tick \<Rightarrow> byte list" where
  "getByteFrequencyData bufferLength t = map (snapshot t) [0..<bufferLength]"

text \<open>A \<open>for\<close> loop over indices whose body can fail.\<close>

fun forEach :: "(nat \<Rightarrow> 's \<Rightarrow> error + 's) \<Rightarrow> nat list \<Rightarrow> 's \<Rightarrow> error + 's" where
  "forEach body [] s = Inr s"
| "forEach body (i # rest) s =
     (case body i s of Inl e \<Rightarrow> Inl e | Inr s' \<Rightarrow> forEach body rest s')"

section \<open>Level shaping\<close>

text \<open>\<open>processAudioLevel\<close> of \<open>audio-visualizer.js\<close>.\<close>

definition processAudioLevel :: "real \<Rightarrow> real" where
  "processAudioLevel rawLevel =
     (let barHeight = (rawLevel / 255) * 100
      in max 1 (min 100 barHeight))"

text \<open>
  \<open>processAudioLevel(rawLevel, noiseLevel)\<close> of the noise-profile variant
  (\<open>unnamed/part_000\<close>); the first argument is \<open>this.noiseMargin\<close>.
\<close>

definition processAudioLevel_noise :: "real \<Rightarrow> real \<Rightarrow> real \<Rightarrow> real" where
  "processAudioLevel_noise noiseMargin rawLevel noiseLevel =
     (let cleanedLevel = max 0 (rawLevel - noiseLevel - noiseMargin);
          barHeight = (cleanedLevel / 255) * 100
      in max 1 (min 100 barHeight))"

text \<open>\<open>applySigmoidScaling\<close> and \<open>processAudioLevel\<close> of \<open>docs/app.js\<close>.\<close>

definition applySigmoidScaling :: "real \<Rightarrow> real" where
  "applySigmoidScaling rawLevel =
     (let noiseFloor = 40;
          midpoint = 55;
          steepness = 3 / 100;
          maxHeight = 100;
          noiseAdjustedInput = max 0 ((rawLevel - noiseFloor) / (255 - noiseFloor));
          sigmoidInput = (noiseAdjustedInput * 255 - midpoint) * steepness;
          sigmoidOutput = 1 / (1 + exp (- sigmoidInput));
          scaledHeight = sigmoidOutput * maxHeight;
          finalHeight = (if rawLevel > noiseFloor then scaledHeight
                         else (rawLevel / noiseFloor) * 5)
      in max 1 (min 100 finalHeight))"

definition processAudioLevel_docs :: "real \<Rightarrow> real" where
  "processAudioLevel_docs rawLevel = applySigmoidScaling rawLevel"

section \<open>Bar tracks (\<open>audio-visualizer.js\<close>)\<close>

record visualizer =
  audioReady :: bool
  bufferLength :: nat
  animationId :: "nat option"
  isRunning :: bool
  barCount :: nat
  peakHoldTime :: int
  barPeaks :: "real list"
  barPeakTimes :: "int list"
  barSmoothValues :: "real list"
  smoothingFactor :: real
  spectrumHistory :: "real list list"
  maxHistoryLayers :: nat

text \<open>
  The constructor. \<open>audioReady\<close> stands for "\<open>audioContext\<close> and \<open>analyser\<close> are
  both set", which is all the code asks of them.
\<close>

definition new_AudioVisualizer :: visualizer where
  "new_AudioVisualizer =
     \<lparr> audioReady = False, bufferLength = 0, animationId = None, isRunning = False,
       barCount = 64, peakHoldTime = 200,
       barPeaks = replicate 64 0, barPeakTimes = replicate 64 0,
       barSmoothValues = replicate 64 0, smoothingFactor = 3 / 10,
       spectrumHistory = [], maxHistoryLayers = 10 \<rparr>"

text \<open>
  \<open>initAudio\<close>: with the microphone granted, \<open>fftSize = 256\<close> gives the analyser
  128 bins; refused, it returns false and the analyser is as it was.
\<close>

definition initAudio :: "bool \<Rightarrow> 'a visualizer_scheme \<Rightarrow> bool \<times> 'a visualizer_scheme" where
  "initAudio granted s =
     (if granted then (True, s\<lparr>audioReady := True, bufferLength := 256 div 2\<rparr>)
      else (False, s))"

text \<open>\<open>Math.floor(this.bufferLength * fraction)\<close>: the bins the bars are cut from.\<close>

definition usableBins :: "nat \<Rightarrow> real \<Rightarrow> nat" where
  "usableBins bins fraction = nat \<lfloor>real bins * fraction\<rfloor>"

text \<open>
  The bucket of bar \<open>i\<close> and its average (lines 119 to 127 of \<open>animate\<close>). An empty
  bucket divides 0 by 0, which is NaN: the result \<open>None\<close>. A bucket whose start lies
  beyond the usable range divides 0 by a negative count, which is 0.
\<close>

definition bucketAverage :: "byte list \<Rightarrow> nat \<Rightarrow> nat \<Rightarrow> nat \<Rightarrow> real option" where
  "bucketAverage dataArray usableRange barWidth i =
     (let startIndex = i * barWidth;
          endIndex = min (startIndex + barWidth) usableRange;
          sum = sum_list (map (\<lambda>j. real (unat (dataArray ! j))) [startIndex..<endIndex])
      in if endIndex = startIndex then None
         else Some (sum / real_of_int (int endIndex - int startIndex)))"

text \<open>
  Smoothing, peak hold and decay, and the write-back of the displayed height
  (lines 130 to 142), on the three values of one bar.
\<close>

definition trackBar :: "real \<Rightarrow> int \<Rightarrow> int \<Rightarrow> real \<Rightarrow> real \<times> real \<times> int \<Rightarrow> real \<times> real \<times> int" where
  "trackBar factor holdTime currentTime barHeight bar =
     (case bar of (smooth, peak, peakTime) \<Rightarrow>
        let smooth1 = smooth + (barHeight - smooth) * factor;
            peak1 = (if smooth1 > peak then smooth1
                     else if currentTime - peakTime > holdTime
                          then max (peak * (85 / 100)) smooth1
                          else max (peak * (98 / 100)) smooth1);
            peakTime1 = (if smooth1 > peak then currentTime else peakTime);
            displayHeight = max smooth1 (peak1 * (1 / 2))
        in (displayHeight, peak1, peakTime1))"

definition animateBar ::
  "byte list \<Rightarrow> int \<Rightarrow> nat \<Rightarrow> nat \<Rightarrow> nat \<Rightarrow> 'a visualizer_scheme \<Rightarrow> error + 'a visualizer_scheme" where
  "animateBar dataArray currentTime usableRange barWidth i s =
     (case bucketAverage dataArray usableRange barWidth i of
        None \<Rightarrow> Inl NotFinite
      | Some average \<Rightarrow>
          if i < length (barSmoothValues s) \<and> i < length (barPeaks s) \<and>
             i < length (barPeakTimes s)
          then
            (case trackBar (smoothingFactor s) (peakHoldTime s) currentTime
                    (processAudioLevel average)
                    (barSmoothValues s ! i, barPeaks s ! i, barPeakTimes s ! i) of
               (displayHeight, peak, peakTime) \<Rightarrow>
                 Inr (s\<lparr>barSmoothValues := (barSmoothValues s)[i := displayHeight],
                        barPeaks := (barPeaks s)[i := peak],
                        barPeakTimes := (barPeakTimes s)[i := peakTime]\<rparr>))
          else Inl MissingElement)"

definition updateSpectrumHistory :: "visualizer \<Rightarrow> visualizer" where
  "updateSpectrumHistory s =
     (let history = barSmoothValues s # spectrumHistory s
      in s\<lparr>spectrumHistory :=
            (if length history > maxHistoryLayers s then butlast history else history)\<rparr>)"

text \<open>
  \<open>animate\<close>, one frame. A visualiser that is not running returns at once. (With no
  bars at all the loop does not run and the bar width is not used.)
\<close>

definition animate :: "tick \<Rightarrow> visualizer \<Rightarrow> error + visualizer" where
  "animate t s =
     (if \<not> isRunning s then Inr s
      else
        let dataArray = getByteFrequencyData (bufferLength s) t;
            currentTime = now t;
            usableRange = usableBins (bufferLength s) (6 / 10);
            barWidth = usableRange div barCount s
        in case forEach (animateBar dataArray currentTime usableRange barWidth)
                  [0..<barCount s] s of
             Inl e \<Rightarrow> Inl e
           | Inr s' \<Rightarrow> Inr ((updateSpectrumHistory s')\<lparr>animationId := Some (frameId t)\<rparr>))"

definition start :: "tick \<Rightarrow> visualizer \<Rightarrow> error + visualizer" where
  "start t s =
     (if \<not> audioReady s then Inl AudioNotInitialized
      else animate t (s\<lparr>isRunning := True\<rparr>))"

text \<open>\<open>if (this.animationId)\<close> is false for \<open>null\<close> and for the handle 0.\<close>

definition cancelAnimation :: "nat option \<Rightarrow> nat option" where
  "cancelAnimation h = (case h of None \<Rightarrow> None | Some n \<Rightarrow> if n \<noteq> 0 then None else Some n)"

definition stop :: "visualizer \<Rightarrow> visualizer" where
  "stop s =
     s\<lparr>isRunning := False,
       animationId := cancelAnimation (animationId s),
       barSmoothValues := replicate (length (barSmoothValues s)) 0,
       spectrumHistory := []\<rparr>"

text \<open>What the page can do to the element, and a run of such events.\<close>

datatype event = InitAudio bool | Start tick | Frame tick | Stop

definition exec :: "event \<Rightarrow> visualizer \<Rightarrow> error + visualizer" where
  "exec e s =
     (case e of
        InitAudio granted \<Rightarrow> Inr (snd (initAudio granted s))
      | Start t \<Rightarrow> start t s
      | Frame t \<Rightarrow> animate t s
      | Stop \<Rightarrow> Inr (stop s))"

fun run :: "event list \<Rightarrow> visualizer \<Rightarrow> error + visualizer" where
  "run [] s = Inr s"
| "run (e # es) s = (case exec e s of Inl err \<Rightarrow> Inl err | Inr s' \<Rightarrow> run es s')"

section \<open>The visualiser with particles (\<open>docs/app.js\<close>)\<close>

text \<open>A particle; its colour \<open>rgb(r, g, b)\<close> is kept as the three numbers.\<close>

record particle =
  p_x :: real
  p_y :: real
  p_vx :: real
  p_vy :: real
  p_life :: real
  p_decay :: real
  p_size :: real
  p_frequency :: nat
  p_color :: "int \<times> int \<times> int"

text \<open>
  The fields the constructor of \<open>docs/app.js\<close> adds to those of
  \<open>audio-visualizer.js\<close>, and the canvas measures \<open>setupCanvas\<close> sets.
\<close>

record particle_visualizer = visualizer +
  fullscreenHistoryLayers :: nat
  particles :: "particle list"
  particlePool :: "particle list"
  maxParticles :: nat
  peakThreshold :: real
  rollingAverages :: "real list"
  musicEnergy :: real
  bassEnergy :: real
  midEnergy :: real
  trebleEnergy :: real
  canvasWidth :: real
  canvasHeight :: real
  baseBarWidth :: real
  baseBarSpacing :: real
  marginWidth :: real

text \<open>
  Assigning a number to \<open>canvas.width\<close> or \<open>canvas.height\<close>. Both are integer
  attributes of the element: the number is truncated towards zero and taken modulo
  \<open>2^32\<close>, and a result above \<open>2^31 - 1\<close> is replaced by the attribute's default
  (300 for the width, 150 for the height). What is read back is that integer.
\<close>

definition canvasAttribute :: "int \<Rightarrow> real \<Rightarrow> real" where
  "canvasAttribute fallback v =
     (let n = (if 0 \<le> v then \<lfloor>v\<rfloor> else \<lceil>v\<rceil>) mod 2 ^ 32
      in real_of_int (if n > 2 ^ 31 - 1 then fallback else n))"

text \<open>
  \<open>setupCanvas\<close>, given the element's rectangle: a zero width or height falls back to
  800 or 200.
\<close>

definition setupCanvas :: "real \<Rightarrow> real \<Rightarrow> particle_visualizer \<Rightarrow> particle_visualizer" where
  "setupCanvas rectWidth rectHeight s =
     (let width = canvasAttribute 300 (if rectWidth = 0 then 800 else rectWidth);
          height = canvasAttribute 150 (if rectHeight = 0 then 200 else rectHeight);
          spacing = 1;
          totalSpacing = (real (barCount s) - 1) * spacing;
          widthForBarsAndMargins = width - totalSpacing;
          barW = widthForBarsAndMargins / (real (barCount s) + 2)
      in s\<lparr>canvasWidth := width, canvasHeight := height, baseBarSpacing := spacing,
           baseBarWidth := barW, marginWidth := barW\<rparr>)"

text \<open>The constructor followed by \<open>connectedCallback\<close> on an element of the given size.\<close>

definition new_ParticleVisualizer :: "real \<Rightarrow> real \<Rightarrow> particle_visualizer" where
  "new_ParticleVisualizer rectWidth rectHeight =
     setupCanvas rectWidth rectHeight
       \<lparr> audioReady = False, bufferLength = 0, animationId = None, isRunning = False,
         barCount = 48, peakHoldTime = 200,
         barPeaks = replicate 48 0, barPeakTimes = replicate 48 0,
         barSmoothValues = replicate 48 0, smoothingFactor = 3 / 10,
         spectrumHistory = [], maxHistoryLayers = 10,
         fullscreenHistoryLayers = 15, particles = [], particlePool = [],
         maxParticles = 200, peakThreshold = 15, rollingAverages = replicate 48 0,
         musicEnergy = 0, bassEnergy = 0, midEnergy = 0, trebleEnergy = 0,
         canvasWidth = 0, canvasHeight = 0, baseBarWidth = 0, baseBarSpacing = 0,
         marginWidth = 0 \<rparr>"

definition updateRollingAverage :: "nat \<Rightarrow> real \<Rightarrow> particle_visualizer \<Rightarrow> particle_visualizer" where
  "updateRollingAverage barIndex currentValue s =
     s\<lparr>rollingAverages := (rollingAverages s)
          [barIndex := rollingAverages s ! barIndex * (95 / 100) + currentValue * (5 / 100)]\<rparr>"

text \<open>
  \<open>getFrequencyColor\<close>. With a single bar the ratio is 0/0 or a division by zero, no
  comparison holds and the last branch is taken. \<open>Math.round\<close> rounds halves up.
\<close>

definition getFrequencyColor :: "nat \<Rightarrow> nat \<Rightarrow> real \<Rightarrow> int \<times> int \<times> int" where
  "getFrequencyColor count barIndex intensity =
     (let below = (\<lambda>c. count \<noteq> 1 \<and> real barIndex / (real count - 1) < c);
          brightness = max (6 / 10) (min (intensity / 80) 1);
          rgb = (if below (2 / 10) then (255, 20, 147)
                 else if below (4 / 10) then (255, 140, 0)
                 else if below (6 / 10) then (255, 255, 0)
                 else if below (8 / 10) then (50, 255, 50)
                 else (0, 255, 255));
          mathRound = (\<lambda>v :: real. \<lfloor>v * brightness + 1 / 2\<rfloor>)
      in case rgb of (r, g, b) \<Rightarrow> (mathRound r, mathRound g, mathRound b))"

text \<open>
  \<open>spawnParticle\<close>. The object popped from the pool, or the fresh one, has all of its
  nine fields assigned, so only the pool's length matters. The three random numbers are
  those of \<open>vx\<close>, \<open>vy\<close> and \<open>decay\<close>.
\<close>

definition spawnParticle ::
  "nat \<Rightarrow> real \<Rightarrow> real \<Rightarrow> real \<times> real \<times> real \<Rightarrow> particle_visualizer \<Rightarrow> particle_visualizer" where
  "spawnParticle barIndex height intensity rnd s =
     (if length (particles s) \<ge> maxParticles s then s
      else
        case rnd of (r1, r2, r3) \<Rightarrow>
        let barW = baseBarWidth s * 1;
            barSpacing = baseBarSpacing s * 1;
            margin = marginWidth s * 1;
            totalWidth = real (barCount s) * barW + (real (barCount s) - 1) * barSpacing
                         + 2 * margin;
            startX = (canvasWidth s - totalWidth) / 2 + margin;
            particle =
              \<lparr> p_x = startX + real barIndex * (barW + barSpacing) + barW / 2,
                p_y = canvasHeight s * (9 / 10) - (height / 100) * canvasHeight s * (7 / 10),
                p_vx = (r1 - 1 / 2) * 2,
                p_vy = - r2 * 3 - 1,
                p_life = 1,
                p_decay = 1 / 100 + r3 * (1 / 100),
                p_size = 2 + (intensity / 100) * 3,
                p_frequency = barIndex,
                p_color = getFrequencyColor (barCount s) barIndex intensity \<rparr>
        in s\<lparr>particlePool := butlast (particlePool s),
             particles := particles s @ [particle]\<rparr>)"

definition detectFrequencyPeaks ::
  "nat \<Rightarrow> real \<Rightarrow> real \<Rightarrow> real \<times> real \<times> real \<Rightarrow> particle_visualizer \<Rightarrow> particle_visualizer" where
  "detectFrequencyPeaks barIndex rawValue displayHeight rnd s =
     (let threshold = rollingAverages s ! barIndex + peakThreshold s
      in if rawValue > threshold \<and> displayHeight > 20
         then spawnParticle barIndex displayHeight rawValue rnd s
         else s)"

text \<open>
  \<open>updateParticles\<close>: the loop runs from the last index down to 0; the first argument
  is the loop variable plus one. A dead particle is spliced out and pushed on the pool.
\<close>

definition moveParticle :: "particle \<Rightarrow> particle" where
  "moveParticle p =
     p\<lparr>p_x := p_x p + p_vx p, p_y := p_y p + p_vy p, p_vy := p_vy p + 1 / 10,
       p_vx := p_vx p * (99 / 100), p_life := p_life p - p_decay p\<rparr>"

fun updateParticlesFrom :: "nat \<Rightarrow> particle list \<Rightarrow> particle list \<Rightarrow> particle list \<times> particle list" where
  "updateParticlesFrom 0 ps pool = (ps, pool)"
| "updateParticlesFrom (Suc i) ps pool =
     (let particle = moveParticle (ps ! i)
      in if p_life particle \<le> 0
         then updateParticlesFrom i (take i ps @ drop (Suc i) ps) (pool @ [particle])
         else updateParticlesFrom i (ps[i := particle]) pool)"

definition updateParticles :: "particle_visualizer \<Rightarrow> particle_visualizer" where
  "updateParticles s =
     (case updateParticlesFrom (length (particles s)) (particles s) (particlePool s) of
        (ps, pool) \<Rightarrow> s\<lparr>particles := ps, particlePool := pool\<rparr>)"

text \<open>\<open>calculateMusicEnergy\<close>. An empty band divides 0 by 0.\<close>

definition calculateMusicEnergy :: "particle_visualizer \<Rightarrow> error + particle_visualizer" where
  "calculateMusicEnergy s =
     (let bassRange = nat \<lfloor>real (barCount s) * (2 / 10)\<rfloor>;
          midRange = nat \<lfloor>real (barCount s) * (6 / 10)\<rfloor>;
          band = (\<lambda>lo hi. sum_list (map (\<lambda>i. barSmoothValues s ! i) [lo..<hi]))
      in if length (barSmoothValues s) < barCount s then Inl MissingElement
         else if bassRange = 0 \<or> midRange = bassRange \<or> barCount s = midRange
         then Inl NotFinite
         else
           let bass = band 0 bassRange / real bassRange;
               mid = band bassRange midRange / (real midRange - real bassRange);
               treble = band midRange (barCount s) / (real (barCount s) - real midRange)
           in Inr (s\<lparr>bassEnergy := bass, midEnergy := mid, trebleEnergy := treble,
                      musicEnergy := (bass + mid + treble) / 3\<rparr>))"

definition updateSpectrumHistory_docs :: "bool \<Rightarrow> particle_visualizer \<Rightarrow> particle_visualizer" where
  "updateSpectrumHistory_docs fullscreenMode s =
     (let history = barSmoothValues s # spectrumHistory s;
          maxLayers = (if fullscreenMode then fullscreenHistoryLayers s else maxHistoryLayers s)
      in s\<lparr>spectrumHistory :=
            (if length history > maxLayers then butlast history else history)\<rparr>)"

definition animateBar_docs ::
  "byte list \<Rightarrow> tick \<Rightarrow> nat \<Rightarrow> nat \<Rightarrow> nat \<Rightarrow> particle_visualizer \<Rightarrow> error + particle_visualizer" where
  "animateBar_docs dataArray t usableRange barWidth i s =
     (case bucketAverage dataArray usableRange barWidth i of
        None \<Rightarrow> Inl NotFinite
      | Some average \<Rightarrow>
          if i < length (barSmoothValues s) \<and> i < length (barPeaks s) \<and>
             i < length (barPeakTimes s) \<and> i < length (rollingAverages s)
          then
            (let barHeight = processAudioLevel_docs average
             in case trackBar (smoothingFactor s) (peakHoldTime s) (now t) barHeight
                    (barSmoothValues s ! i, barPeaks s ! i, barPeakTimes s ! i) of
               (displayHeight, peak, peakTime) \<Rightarrow>
                 Inr (detectFrequencyPeaks i barHeight displayHeight (randoms t i)
                       (updateRollingAverage i barHeight
                         (s\<lparr>barSmoothValues := (barSmoothValues s)[i := displayHeight],
                            barPeaks := (barPeaks s)[i := peak],
                            barPeakTimes := (barPeakTimes s)[i := peakTime]\<rparr>))))
          else Inl MissingElement)"

definition animate_docs :: "tick \<Rightarrow> particle_visualizer \<Rightarrow> error + particle_visualizer" where
  "animate_docs t s =
     (if \<not> isRunning s then Inr s
      else
        let dataArray = getByteFrequencyData (bufferLength s) t;
            usableRange = usableBins (bufferLength s) (55 / 100);
            barWidth = max 1 (usableRange div barCount s)
        in case forEach (animateBar_docs dataArray t usableRange barWidth)
                  [0..<barCount s] s of
             Inl e \<Rightarrow> Inl e
           | Inr s1 \<Rightarrow>
               (case calculateMusicEnergy s1 of
                  Inl e \<Rightarrow> Inl e
                | Inr s2 \<Rightarrow>
                    Inr ((updateParticles (updateSpectrumHistory_docs (fullscreen t) s2))
                          \<lparr>animationId := Some (frameId t)\<rparr>)))"

definition start_docs :: "tick \<Rightarrow> particle_visualizer \<Rightarrow> error + particle_visualizer" where
  "start_docs t s =
     (if \<not> audioReady s then Inl AudioNotInitialized
      else animate_docs t (s\<lparr>isRunning := True\<rparr>))"

definition stop_docs :: "particle_visualizer \<Rightarrow> particle_visualizer" where
  "stop_docs s =
     s\<lparr>isRunning := False,
       animationId := cancelAnimation (animationId s),
       barSmoothValues := replicate (length (barSmoothValues s)) 0,
       spectrumHistory := [],
       particles := [],
       rollingAverages := replicate (length (rollingAverages s)) 0,
       musicEnergy := 0, bassEnergy := 0, midEnergy := 0, trebleEnergy := 0\<rparr>"

definition exec_docs :: "event \<Rightarrow> particle_visualizer \<Rightarrow> error + particle_visualizer" where
  "exec_docs e s =
     (case e of
        InitAudio granted \<Rightarrow> Inr (snd (initAudio granted s))
      | Start t \<Rightarrow> start_docs t s
      | Frame t \<Rightarrow> animate_docs t s
      | Stop \<Rightarrow> Inr (stop_docs s))"

fun run_docs :: "event list \<Rightarrow> particle_visualizer \<Rightarrow> error + particle_visualizer" where
  "run_docs [] s = Inr s"
| "run_docs (e # es) s =
     (case exec_docs e s of Inl err \<Rightarrow> Inl err | Inr s' \<Rightarrow> run_docs es s')"

section \<open>Stereo meters (\<open>channel-meters.js\<close>)\<close>

text \<open>The fields of \<open>ChannelMeters\<close> that \<open>calculateFilteredRMS\<close> reads or writes.\<close>

record channel_meters =
  leftBaseline :: real
  rightBaseline :: real
  calibrationSamples :: nat
  leftHistory :: "real list"
  rightHistory :: "real list"
  historySize :: nat
  noiseGate :: real

definition new_ChannelMeters :: channel_meters where
  "new_ChannelMeters =
     \<lparr> leftBaseline = 0, rightBaseline = 0, calibrationSamples = 0,
       leftHistory = [], rightHistory = [], historySize = 3, noiseGate = 25 \<rparr>"

text \<open>The loop over the bins (lines 111 to 120): the sum of squares (\<open>sum\<close> in the source) and the count.\<close>

definition gateSample :: "real \<Rightarrow> real \<Rightarrow> real \<times> nat \<Rightarrow> byte \<Rightarrow> real \<times> nat" where
  "gateSample baseline gate acc rawLevel =
     (case acc of (sumSq, validSamples) \<Rightarrow>
        let cleanLevel = max 0 (real (unat rawLevel) - baseline)
        in if cleanLevel > gate
           then (let normalized = cleanLevel / 255
                 in (sumSq + normalized * normalized, validSamples + 1))
           else (sumSq, validSamples))"

definition gateSamples :: "real \<Rightarrow> real \<Rightarrow> byte list \<Rightarrow> real \<times> nat" where
  "gateSamples baseline gate dataArray = foldl (gateSample baseline gate) (0, 0) dataArray"

text \<open>
  Lines 128 to 136: from the RMS to the percentage. The caller passes an RMS of at least
  0.02, so the base of the power is positive.
\<close>

definition rmsPercentage :: "real \<Rightarrow> real" where
  "rmsPercentage rms =
     (let percentage = rms * 200;
          percentage = (if percentage > 80 then 80 + (percentage - 80) * (3 / 10)
                        else percentage);
          percentage = min 95 percentage
      in (percentage / 100) powr (6 / 10) * 100)"

text \<open>\<open>history.push(percentage)\<close>, then one \<open>shift\<close> when the history is too long.\<close>

definition pushHistory :: "nat \<Rightarrow> real list \<Rightarrow> real \<Rightarrow> real list" where
  "pushHistory capacity history percentage =
     (let history = history @ [percentage]
      in if length history > capacity then tl history else history)"

text \<open>Lines 144 to 157, on the history as it is after the push.\<close>

definition blendWithHistory :: "real list \<Rightarrow> real \<Rightarrow> real" where
  "blendWithHistory history percentage =
     (if length history < 2 then percentage
      else
        let recentAvg = (history ! (length history - 2) + history ! (length history - 1)) / 2;
            currentWeight = (if percentage > recentAvg then 4 / 10 else 6 / 10);
            historyWeight = (if percentage > recentAvg then 6 / 10 else 4 / 10)
        in max 0 (percentage * currentWeight + recentAvg * historyWeight))"

text \<open>The baseline and the history of a channel: any channel but \<open>'left'\<close> is the right one.\<close>

definition channelBaseline :: "string \<Rightarrow> channel_meters \<Rightarrow> real" where
  "channelBaseline channel m = (if channel = ''left'' then leftBaseline m else rightBaseline m)"

definition channelHistory :: "string \<Rightarrow> channel_meters \<Rightarrow> real list" where
  "channelHistory channel m = (if channel = ''left'' then leftHistory m else rightHistory m)"

text \<open>\<open>calculateFilteredRMS(dataArray, channel)\<close>: the level and the meters afterwards.\<close>

definition calculateFilteredRMS :: "byte list \<Rightarrow> string \<Rightarrow> channel_meters \<Rightarrow> real \<times> channel_meters" where
  "calculateFilteredRMS dataArray channel m =
     (let baseline = channelBaseline channel m
      in case gateSamples baseline (noiseGate m) dataArray of
        (sumSq, validSamples) \<Rightarrow>
          if validSamples < 3 then (0, m)
          else
            let rms = sqrt (sumSq / real validSamples)
            in if rms < 2 / 100 then (0, m)
               else
                 let percentage = rmsPercentage rms;
                     history = pushHistory (historySize m) (channelHistory channel m) percentage
                 in (blendWithHistory history percentage,
                     if channel = ''left'' then m\<lparr>leftHistory := history\<rparr>
                     else m\<lparr>rightHistory := history\<rparr>))"

text \<open>
  The blend as the specification words it, for comparison: the average is that of the
  last two entries the history held before the push, and the new value weighs 0.6 when it
  is above that average, 0.4 otherwise.
\<close>

definition claimedBlend :: "real list \<Rightarrow> real \<Rightarrow> real" where
  "claimedBlend before percentage =
     (let recentAvg = (before ! (length before - 2) + before ! (length before - 1)) / 2
      in if percentage > recentAvg then percentage * (6 / 10) + recentAvg * (4 / 10)
         else percentage * (4 / 10) + recentAvg * (6 / 10))"

section \<open>The stored noise profile (\<open>unnamed/part_000\<close>)\<close>

text \<open>
  \<open>localStorage\<close> maps a key to a text. The text \<open>saveNoiseProfile\<close> writes is the JSON
  of a timestamp and an array of numbers, and \<open>JSON.parse\<close> gives both back:
  \<open>ProfileJSON\<close>. Of the other texts a page can hold under the key, \<open>TimestampOnly\<close>
  is an object with a numeric timestamp and no \<open>noiseProfile\<close> field, and \<open>OtherText\<close>
  a text that does not parse or has no usable timestamp. (An object whose
  \<open>noiseProfile\<close> is present but is not an array of numbers is not modelled.)
\<close>

record stored_profile =
  timestamp :: int
  noiseProfile :: "real list"

datatype item = ProfileJSON stored_profile | TimestampOnly int | OtherText string

type_synonym storage = "string \<rightharpoonup> item"

text \<open>
  \<open>localStorage.setItem\<close> can throw (storage full, or refused by the browser); the
  first argument says whether the write is accepted, and \<open>None\<close> is the exception.
\<close>

definition setItem :: "bool \<Rightarrow> string \<Rightarrow> item \<Rightarrow> storage \<Rightarrow> storage option" where
  "setItem accepted key v store = (if accepted then Some (store(key \<mapsto> v)) else None)"

text \<open>
  The fields of the noise-profile variant that the profile functions touch. For
  \<open>backgroundNoise\<close>, \<open>None\<close> stands for \<open>null\<close> and for \<open>undefined\<close>: the code
  only asks whether the value is there.
\<close>

record noise_visualizer =
  backgroundNoise :: "real list option"
  noiseMargin :: real

definition profileKey :: string where
  "profileKey = ''neonVisualizerNoiseProfile''"

definition profileTTL :: int where
  "profileTTL = 7 * 24 * 60 * 60 * 1000"

text \<open>
  \<open>saveNoiseProfile\<close> at time \<open>now\<close>. \<open>Array.from(null)\<close> throws, and so can
  \<open>setItem\<close>; the handler logs either and nothing is stored.
\<close>

definition saveNoiseProfile :: "bool \<Rightarrow> int \<Rightarrow> noise_visualizer \<Rightarrow> storage \<Rightarrow> storage" where
  "saveNoiseProfile accepted currentTime s store =
     (case backgroundNoise s of
        None \<Rightarrow> store
      | Some noise \<Rightarrow>
          (case setItem accepted profileKey
                  (ProfileJSON \<lparr>timestamp = currentTime, noiseProfile = noise\<rparr>) store of
             None \<Rightarrow> store
           | Some store' \<Rightarrow> store'))"

text \<open>
  \<open>loadStoredNoiseProfile\<close> at time \<open>now\<close>: what it returns, and the visualiser. A
  fresh object without a \<open>noiseProfile\<close> makes it return true with no profile in memory.
\<close>

definition loadStoredNoiseProfile :: "int \<Rightarrow> storage \<Rightarrow> noise_visualizer \<Rightarrow> bool \<times> noise_visualizer" where
  "loadStoredNoiseProfile currentTime store s =
     (case store profileKey of
        Some (ProfileJSON profile) \<Rightarrow>
          (let age = currentTime - timestamp profile
           in if age < profileTTL
              then (True, s\<lparr>backgroundNoise := Some (noiseProfile profile)\<rparr>)
              else (False, s\<lparr>backgroundNoise := None\<rparr>))
      | Some (TimestampOnly stamp) \<Rightarrow>
          (let age = currentTime - stamp
           in if age < profileTTL
              then (True, s\<lparr>backgroundNoise := None\<rparr>)
              else (False, s\<lparr>backgroundNoise := None\<rparr>))
      | _ \<Rightarrow> (False, s\<lparr>backgroundNoise := None\<rparr>))"

section \<open>Invariants of the reachable states\<close>

text \<open>
  What the constructors establish and every event keeps: the bar count and the lengths of
  the per-bar arrays agree, the two constants of the bar tracks are as constructed, a
  running visualiser has its audio set up, and then the analyser has 128 bins.
\<close>

definition configured :: "nat \<Rightarrow> 'a visualizer_scheme \<Rightarrow> bool" where
  "configured n s \<longleftrightarrow>
     barCount s = n \<and> length (barSmoothValues s) = n \<and> length (barPeaks s) = n \<and>
     length (barPeakTimes s) = n \<and> smoothingFactor s = 3 / 10 \<and> peakHoldTime s = 200 \<and>
     (isRunning s \<longrightarrow> audioReady s) \<and> (audioReady s \<longrightarrow> bufferLength s = 128)"

text \<open>A bar is in range when its smoothed value lies between 0 and its peak, and its peak is at most 100.\<close>

definition barInRange :: "real \<Rightarrow> real \<Rightarrow> bool" where
  "barInRange smooth peak \<longleftrightarrow> 0 \<le> smooth \<and> smooth \<le> peak \<and> peak \<le> 100"

definition barsInRange :: "'a visualizer_scheme \<Rightarrow> bool" where
  "barsInRange s \<longleftrightarrow>
     (\<forall>i < length (barSmoothValues s). barInRange (barSmoothValues s ! i) (barPeaks s ! i))"

text \<open>The three values of bar \<open>i\<close>.\<close>

definition barOf :: "'a visualizer_scheme \<Rightarrow> nat \<Rightarrow> real \<times> real \<times> int" where
  "barOf s i = (barSmoothValues s ! i, barPeaks s ! i, barPeakTimes s ! i)"

text \<open>The same for the visualiser with particles, whose pool of live particles is bounded.\<close>

definition configured_docs :: "particle_visualizer \<Rightarrow> bool" where
  "configured_docs s \<longleftrightarrow>
     configured 48 s \<and> length (rollingAverages s) = 48 \<and> maxParticles s = 200 \<and>
     length (particles s) \<le> 200 \<and> maxHistoryLayers s = 10 \<and>
     fullscreenHistoryLayers s = 15"

section \<open>Sample inputs\<close>

text \<open>A tick on which every bin is at full scale, and silent ticks 16 ms apart.\<close>

definition loudTick :: tick where
  "loudTick = \<lparr>snapshot = (\<lambda>_. 255), now = 1000, frameId = 1, fullscreen = False,
               randoms = (\<lambda>_. (0, 0, 0))\<rparr>"

definition silentTick :: "nat \<Rightarrow> tick" where
  "silentTick n = \<lparr>snapshot = (\<lambda>_. 0), now = 2000 + 16 * int n, frameId = n + 2,
                   fullscreen = False, randoms = (\<lambda>_. (0, 0, 0))\<rparr>"

section \<open>The level shaper stays within 1 and 100\<close>

lemma level_noise_range:
  "1 \<le> processAudioLevel_noise margin raw noise \<and>
   processAudioLevel_noise margin raw noise \<le> 100"
  by (simp add: processAudioLevel_noise_def Let_def)

lemma sigmoid_range:
  "1 \<le> applySigmoidScaling raw \<and> applySigmoidScaling raw \<le> 100"
  by (simp add: applySigmoidScaling_def Let_def)

lemma level_range:
  "1 \<le> processAudioLevel raw \<and> processAudioLevel raw \<le> 100"
  by (simp add: processAudioLevel_def Let_def)

text \<open>
  C6. For a raw average and a noise average between 0 and 255, the level shaper returns
  a percentage between 1 and 100, in the variant that subtracts the noise and in the
  sigmoid variant; it never returns 0.
\<close>

theorem C6_level_shaper_range:
  assumes "0 \<le> raw" "raw \<le> 255" "0 \<le> noise" "noise \<le> 255"
  shows "1 \<le> processAudioLevel_noise margin raw noise \<and>
         processAudioLevel_noise margin raw noise \<le> 100 \<and>
         1 \<le> applySigmoidScaling raw \<and> applySigmoidScaling raw \<le> 100 \<and>
         processAudioLevel_noise margin raw noise \<noteq> 0 \<and> applySigmoidScaling raw \<noteq> 0"
  using level_noise_range [of margin raw noise] sigmoid_range [of raw] by linarith

theorem C6_level_shaper_range_witness:
  "processAudioLevel_noise 5 40 10 = 500 / 51 \<and> applySigmoidScaling 40 = 5 \<and>
   1 \<le> processAudioLevel_noise 5 40 10 \<and> processAudioLevel_noise 5 40 10 \<le> 100 \<and>
   1 \<le> applySigmoidScaling 40 \<and> applySigmoidScaling 40 \<le> 100"
  using C6_level_shaper_range [of 40 10 5]
  by (simp add: processAudioLevel_noise_def applySigmoidScaling_def Let_def)

section \<open>The stereo meter: gating and blending\<close>

lemma rms_gated:
  assumes "gateSamples (channelBaseline channel m) (noiseGate m) dataArray = (sumSq, n)"
    and "n < 3 \<or> sqrt (sumSq / real n) < 2 / 100"
  shows "calculateFilteredRMS dataArray channel m = (0, m)"
  using assms by (auto simp: calculateFilteredRMS_def channelBaseline_def Let_def)

lemma rms_passed:
  assumes "gateSamples (channelBaseline channel m) (noiseGate m) dataArray = (sumSq, n)"
    and "\<not> n < 3" "\<not> sqrt (sumSq / real n) < 2 / 100"
  shows "calculateFilteredRMS dataArray channel m =
           (blendWithHistory
              (pushHistory (historySize m) (channelHistory channel m)
                 (rmsPercentage (sqrt (sumSq / real n))))
              (rmsPercentage (sqrt (sumSq / real n))),
            if channel = ''left''
            then m\<lparr>leftHistory := pushHistory (historySize m) (leftHistory m)
                       (rmsPercentage (sqrt (sumSq / real n)))\<rparr>
            else m\<lparr>rightHistory := pushHistory (historySize m) (rightHistory m)
                       (rmsPercentage (sqrt (sumSq / real n)))\<rparr>)"
  using assms by (simp add: calculateFilteredRMS_def channelBaseline_def channelHistory_def Let_def)

lemma pushHistory_last2:
  assumes "2 \<le> length (pushHistory capacity history p)"
  shows "history \<noteq> [] \<and>
         pushHistory capacity history p ! (length (pushHistory capacity history p) - 1) = p \<and>
         pushHistory capacity history p ! (length (pushHistory capacity history p) - 2) = last history"
proof -
  have ne: "history \<noteq> []"
    using assms by (auto simp: pushHistory_def Let_def split: if_splits)
  then have len: "1 \<le> length history" by (cases history) auto
  have full: "(history @ [p]) ! (length history - 1) = last history"
    using ne by (simp add: nth_append last_conv_nth)
  show ?thesis
  proof (cases "length (history @ [p]) > capacity")
    case False
    with len full ne show ?thesis
      by (auto simp: pushHistory_def Let_def nth_append)
  next
    case True
    then have r: "pushHistory capacity history p = tl (history @ [p])"
      by (simp add: pushHistory_def Let_def)
    with assms have len2: "2 \<le> length history" by simp
    have a: "tl (history @ [p]) ! (length history - 1) = (history @ [p]) ! Suc (length history - 1)"
      by (rule nth_tl) (use len in simp)
    have b: "tl (history @ [p]) ! (length history - 2) = (history @ [p]) ! Suc (length history - 2)"
      by (rule nth_tl) (use len2 in simp)
    have c: "Suc (length history - 2) = length history - 1" using len2 by simp
    show ?thesis using ne a b c full len by (simp add: r nth_append)
  qed
qed

lemma blend_after_push:
  assumes "2 \<le> length (pushHistory capacity history p)"
  shows "blendWithHistory (pushHistory capacity history p) p =
           (let recentAvg = (last history + p) / 2
            in max 0 (p * (if p > recentAvg then 4 / 10 else 6 / 10)
                      + recentAvg * (if p > recentAvg then 6 / 10 else 4 / 10)))"
  using pushHistory_last2 [OF assms] assms
  by (simp add: blendWithHistory_def Let_def)

lemma pushHistory_long:
  assumes "history \<noteq> []" "2 \<le> capacity"
  shows "2 \<le> length (pushHistory capacity history p)"
  using assms by (cases history) (auto simp: pushHistory_def Let_def)

lemma gate_full: "gateSamples 0 25 [255, 255, 255] = (3, 3)"
  by (simp add: gateSamples_def gateSample_def Let_def)

lemma gate_fifth: "gateSamples 0 25 [51, 51, 51] = (3 / 25, 3)"
  by (simp add: gateSamples_def gateSample_def Let_def)

lemma sqrt_25: "sqrt (1 / 25) = 1 / 5"
  by (rule real_sqrt_unique) (simp_all add: power2_eq_square)

lemma pct_full: "rmsPercentage 1 = (95 / 100) powr (6 / 10) * 100"
  by (simp add: rmsPercentage_def Let_def)

lemma pct_fifth: "rmsPercentage (1 / 5) = (4 / 10) powr (6 / 10) * 100"
  by (simp add: rmsPercentage_def Let_def)

lemma pct_fifth_less_full: "rmsPercentage (1 / 5) < rmsPercentage 1"
proof -
  have "(4 / 10 :: real) powr (6 / 10) < (95 / 100) powr (6 / 10)"
    by (rule powr_less_mono2) simp_all
  then show ?thesis by (simp add: pct_full pct_fifth)
qed


lemma quiet_once:
  "calculateFilteredRMS [51, 51, 51] ''left'' new_ChannelMeters
     = (rmsPercentage (1 / 5), new_ChannelMeters\<lparr>leftHistory := [rmsPercentage (1 / 5)]\<rparr>)"
proof -
  have g: "gateSamples (channelBaseline ''left'' new_ChannelMeters) (noiseGate new_ChannelMeters)
             [51, 51, 51] = (3 / 25, 3)"
    by (simp add: gate_fifth channelBaseline_def new_ChannelMeters_def)
  show ?thesis
    using rms_passed [OF g]
    by (simp add: sqrt_25 channelHistory_def new_ChannelMeters_def pushHistory_def
        blendWithHistory_def)
qed

lemma quiet_twice:
  "snd (calculateFilteredRMS [51, 51, 51] ''left''
          (new_ChannelMeters\<lparr>leftHistory := [rmsPercentage (1 / 5)]\<rparr>))
     = new_ChannelMeters\<lparr>leftHistory := [rmsPercentage (1 / 5), rmsPercentage (1 / 5)]\<rparr>"
proof -
  let ?m = "new_ChannelMeters\<lparr>leftHistory := [rmsPercentage (1 / 5)]\<rparr>"
  have g: "gateSamples (channelBaseline ''left'' ?m) (noiseGate ?m) [51, 51, 51] = (3 / 25, 3)"
    by (simp add: gate_fifth channelBaseline_def new_ChannelMeters_def)
  show ?thesis
    using rms_passed [OF g]
    by (simp add: sqrt_25 channelHistory_def new_ChannelMeters_def pushHistory_def)
qed

lemma loud_after:
  assumes "history \<noteq> []"
  shows "fst (calculateFilteredRMS [255, 255, 255] ''left''
           (new_ChannelMeters\<lparr>leftHistory := history\<rparr>))
         = blendWithHistory (pushHistory 3 history (rmsPercentage 1)) (rmsPercentage 1)"
proof -
  let ?m = "new_ChannelMeters\<lparr>leftHistory := history\<rparr>"
  have g: "gateSamples (channelBaseline ''left'' ?m) (noiseGate ?m) [255, 255, 255] = (3, 3)"
    by (simp add: gate_full channelBaseline_def new_ChannelMeters_def)
  show ?thesis
    using rms_passed [OF g]
    by (simp add: channelHistory_def new_ChannelMeters_def)
qed

lemma pct_nonneg: "0 \<le> rmsPercentage r"
  by (simp add: rmsPercentage_def Let_def)

lemma loud_after_quiet_value:
  assumes "history \<noteq> []" "last history = rmsPercentage (1 / 5)"
  shows "fst (calculateFilteredRMS [255, 255, 255] ''left''
           (new_ChannelMeters\<lparr>leftHistory := history\<rparr>))
         = rmsPercentage 1 * (7 / 10) + rmsPercentage (1 / 5) * (3 / 10)"
proof -
  have gt: "rmsPercentage 1 > (rmsPercentage (1 / 5) + rmsPercentage 1) / 2"
    using pct_fifth_less_full by simp
  have "blendWithHistory (pushHistory 3 history (rmsPercentage 1)) (rmsPercentage 1)
          = max 0 (rmsPercentage 1 * (4 / 10)
                   + (rmsPercentage (1 / 5) + rmsPercentage 1) / 2 * (6 / 10))"
    using blend_after_push [OF pushHistory_long [OF assms(1), of 3 "rmsPercentage 1"]] gt assms(2)
    by (simp add: Let_def)
  also have "\<dots> = rmsPercentage 1 * (7 / 10) + rmsPercentage (1 / 5) * (3 / 10)"
    using pct_nonneg [of 1] pct_nonneg [of "1 / 5"] by (simp add: max_def field_simps)
  finally show ?thesis using loud_after [OF assms(1)] by simp
qed

text \<open>
  C1 as the specification states it fails. After two quiet ticks (every bin 51) the
  history is two equal percentages; on a loud tick (every bin 255) the code returns
  0.7 of the new percentage plus 0.3 of the old one, where the claimed blend gives
  0.6 and 0.4. Neither change alone accounts for it: the claimed window with the weights
  exchanged gives 0.4 and 0.6, and the claimed weights on the mean of the old and the new
  percentage give 0.8 and 0.2.
\<close>

theorem C1_blend_counterexample:
  "fst (calculateFilteredRMS [255, 255, 255] ''left''
         (snd (calculateFilteredRMS [51, 51, 51] ''left''
           (snd (calculateFilteredRMS [51, 51, 51] ''left'' new_ChannelMeters)))))
     \<noteq> claimedBlend
         (leftHistory (snd (calculateFilteredRMS [51, 51, 51] ''left''
           (snd (calculateFilteredRMS [51, 51, 51] ''left'' new_ChannelMeters)))))
         (rmsPercentage 1) \<and>
   fst (calculateFilteredRMS [255, 255, 255] ''left''
         (snd (calculateFilteredRMS [51, 51, 51] ''left''
           (snd (calculateFilteredRMS [51, 51, 51] ''left'' new_ChannelMeters)))))
     \<noteq> rmsPercentage 1 * (4 / 10) + rmsPercentage (1 / 5) * (6 / 10) \<and>
   fst (calculateFilteredRMS [255, 255, 255] ''left''
         (snd (calculateFilteredRMS [51, 51, 51] ''left''
           (snd (calculateFilteredRMS [51, 51, 51] ''left'' new_ChannelMeters)))))
     \<noteq> rmsPercentage 1 * (6 / 10)
         + (rmsPercentage (1 / 5) + rmsPercentage 1) / 2 * (4 / 10)"
proof -
  let ?q = "rmsPercentage (1 / 5)"
  let ?p = "rmsPercentage 1"
  have code: "fst (calculateFilteredRMS [255, 255, 255] ''left''
                 (new_ChannelMeters\<lparr>leftHistory := [?q, ?q]\<rparr>))
              = ?p * (7 / 10) + ?q * (3 / 10)"
    by (rule loud_after_quiet_value) simp_all
  have claim: "claimedBlend [?q, ?q] ?p = ?p * (6 / 10) + ?q * (4 / 10)"
    using pct_fifth_less_full by (simp add: claimedBlend_def Let_def)
  have "?p * (7 / 10) + ?q * (3 / 10) \<noteq> ?p * (6 / 10) + ?q * (4 / 10)"
    "?p * (7 / 10) + ?q * (3 / 10) \<noteq> ?p * (4 / 10) + ?q * (6 / 10)"
    "?p * (7 / 10) + ?q * (3 / 10) \<noteq> ?p * (6 / 10) + (?q + ?p) / 2 * (4 / 10)"
    using pct_fifth_less_full by (simp_all add: field_simps)
  then show ?thesis
    by (simp add: quiet_once quiet_twice code claim)
qed

text \<open>
  C1, amended. When \<open>calculateFilteredRMS\<close> reaches the blending step (the history
  holds at least 2 samples after the push), \<open>recentAvg\<close> is the mean of the last entry
  recorded before the push and the new value itself; the new value gets weight 0.4 and
  \<open>recentAvg\<close> weight 0.6 when the new value exceeds \<open>recentAvg\<close>, and the new value
  gets 0.6 and \<open>recentAvg\<close> 0.4 otherwise; the result is that blend, floored at 0.
\<close>

theorem C1_blend_weights:
  assumes "gateSamples (channelBaseline channel m) (noiseGate m) dataArray = (sumSq, n)"
    and "\<not> n < 3" and "\<not> sqrt (sumSq / real n) < 2 / 100"
    and "2 \<le> length (pushHistory (historySize m) (channelHistory channel m)
                        (rmsPercentage (sqrt (sumSq / real n))))"
  shows "fst (calculateFilteredRMS dataArray channel m) =
           (let percentage = rmsPercentage (sqrt (sumSq / real n));
                recentAvg = (last (channelHistory channel m) + percentage) / 2
            in if percentage > recentAvg
               then max 0 (percentage * (4 / 10) + recentAvg * (6 / 10))
               else max 0 (percentage * (6 / 10) + recentAvg * (4 / 10)))"
  using rms_passed [OF assms(1-3)] blend_after_push [OF assms(4)]
  by (simp add: Let_def)

theorem C1_blend_weights_witness:
  "fst (calculateFilteredRMS [255, 255, 255] ''left''
         (new_ChannelMeters\<lparr>leftHistory := [rmsPercentage (1 / 5)]\<rparr>))
     = max 0 (rmsPercentage 1 * (4 / 10)
              + (rmsPercentage (1 / 5) + rmsPercentage 1) / 2 * (6 / 10))"
proof -
  let ?m = "new_ChannelMeters\<lparr>leftHistory := [rmsPercentage (1 / 5)]\<rparr>"
  have g: "gateSamples (channelBaseline ''left'' ?m) (noiseGate ?m) [255, 255, 255] = (3, 3)"
    by (simp add: gate_full channelBaseline_def new_ChannelMeters_def)
  have gt: "rmsPercentage 1 > (rmsPercentage (1 / 5) + rmsPercentage 1) / 2"
    using pct_fifth_less_full by simp
  have long: "2 \<le> length (pushHistory (historySize ?m) (channelHistory ''left'' ?m)
                              (rmsPercentage (sqrt (3 / real (3 :: nat)))))"
    by (simp add: pushHistory_def channelHistory_def new_ChannelMeters_def)
  show ?thesis
    using C1_blend_weights [OF g _ _ long] gt
    by (simp add: channelHistory_def new_ChannelMeters_def Let_def)
qed

text \<open>
  C10. When \<open>calculateFilteredRMS\<close> leaves early (fewer than 3 bins above the noise
  gate, or an RMS below 0.02) it returns 0 and the meters are unchanged, history and
  baselines included, so any later call gives what it would have given without the gated
  one; a call that reaches the percentage stage pushes that percentage into the channel's
  history. No call changes a baseline.
\<close>

theorem C10_gated_ticks_change_nothing:
  assumes "gateSamples (channelBaseline channel m) (noiseGate m) dataArray = (sumSq, n)"
  shows "(n < 3 \<or> sqrt (sumSq / real n) < 2 / 100 \<longrightarrow>
            calculateFilteredRMS dataArray channel m = (0, m) \<and>
            calculateFilteredRMS later channel' (snd (calculateFilteredRMS dataArray channel m))
              = calculateFilteredRMS later channel' m) \<and>
         (\<not> (n < 3 \<or> sqrt (sumSq / real n) < 2 / 100) \<longrightarrow>
            channelHistory channel (snd (calculateFilteredRMS dataArray channel m))
              = pushHistory (historySize m) (channelHistory channel m)
                  (rmsPercentage (sqrt (sumSq / real n)))) \<and>
         leftBaseline (snd (calculateFilteredRMS dataArray channel m)) = leftBaseline m \<and>
         rightBaseline (snd (calculateFilteredRMS dataArray channel m)) = rightBaseline m"
proof (cases "n < 3 \<or> sqrt (sumSq / real n) < 2 / 100")
  case True
  then show ?thesis using rms_gated [OF assms] by simp
next
  case False
  then show ?thesis using rms_passed [OF assms] by (simp add: channelHistory_def)
qed

theorem C10_gated_ticks_change_nothing_witness:
  "calculateFilteredRMS [255, 255] ''left'' (new_ChannelMeters\<lparr>leftHistory := [50]\<rparr>)
     = (0, new_ChannelMeters\<lparr>leftHistory := [50]\<rparr>) \<and>
   channelHistory ''left''
     (snd (calculateFilteredRMS [255, 255, 255] ''left'' (new_ChannelMeters\<lparr>leftHistory := [50]\<rparr>)))
     = [50, rmsPercentage 1]"
proof -
  let ?m = "new_ChannelMeters\<lparr>leftHistory := [50]\<rparr>"
  have g2: "gateSamples (channelBaseline ''left'' ?m) (noiseGate ?m) [255, 255] = (2, 2)"
    by (simp add: gateSamples_def gateSample_def channelBaseline_def new_ChannelMeters_def)
  have g3: "gateSamples (channelBaseline ''left'' ?m) (noiseGate ?m) [255, 255, 255] = (3, 3)"
    by (simp add: gate_full channelBaseline_def new_ChannelMeters_def)
  show ?thesis
    using C10_gated_ticks_change_nothing [OF g2] C10_gated_ticks_change_nothing [OF g3]
    by (simp add: channelHistory_def new_ChannelMeters_def pushHistory_def)
qed

section \<open>The stored noise profile: saving and loading\<close>

text \<open>
  C9. A profile saved at one time (the write being accepted) and loaded at another, less
  than the 7 days of the TTL later, comes back as the same array, the stored record
  holding that array and the time of saving; loaded when its age is the TTL or more,
  nothing is restored: the load returns false and the profile in memory is empty. A write
  that is refused stores nothing.
\<close>

theorem C9_profile_round_trip:
  assumes "backgroundNoise s = Some noise"
  shows "saveNoiseProfile True saved s store profileKey
           = Some (ProfileJSON \<lparr>timestamp = saved, noiseProfile = noise\<rparr>) \<and>
         (loaded - saved < profileTTL \<longrightarrow>
            loadStoredNoiseProfile loaded (saveNoiseProfile True saved s store) s'
              = (True, s'\<lparr>backgroundNoise := Some noise\<rparr>)) \<and>
         (loaded - saved \<ge> profileTTL \<longrightarrow>
            loadStoredNoiseProfile loaded (saveNoiseProfile True saved s store) s'
              = (False, s'\<lparr>backgroundNoise := None\<rparr>)) \<and>
         saveNoiseProfile False saved s store = store"
  using assms
  by (simp add: saveNoiseProfile_def setItem_def loadStoredNoiseProfile_def Let_def)

theorem C9_profile_round_trip_witness:
  "loadStoredNoiseProfile 604799999
     (saveNoiseProfile True 0 \<lparr>backgroundNoise = Some [12, 0], noiseMargin = 5\<rparr> Map.empty)
     \<lparr>backgroundNoise = None, noiseMargin = 5\<rparr>
     = (True, \<lparr>backgroundNoise = Some [12, 0], noiseMargin = 5\<rparr>) \<and>
   loadStoredNoiseProfile 604800000
     (saveNoiseProfile True 0 \<lparr>backgroundNoise = Some [12, 0], noiseMargin = 5\<rparr> Map.empty)
     \<lparr>backgroundNoise = Some [1, 1], noiseMargin = 5\<rparr>
     = (False, \<lparr>backgroundNoise = None, noiseMargin = 5\<rparr>)"
  using C9_profile_round_trip
          [of "\<lparr>backgroundNoise = Some [12, 0], noiseMargin = 5\<rparr>" "[12, 0]" 0 Map.empty
              604799999 "\<lparr>backgroundNoise = None, noiseMargin = 5\<rparr>"]
        C9_profile_round_trip
          [of "\<lparr>backgroundNoise = Some [12, 0], noiseMargin = 5\<rparr>" "[12, 0]" 0 Map.empty
              604800000 "\<lparr>backgroundNoise = Some [1, 1], noiseMargin = 5\<rparr>"]
  by (simp add: profileTTL_def)

section \<open>Bar tracks: buckets, the loop over the bars, and the invariant\<close>

lemma forEach_append:
  "forEach body (xs @ ys) s =
     (case forEach body xs s of Inl e \<Rightarrow> Inl e | Inr s' \<Rightarrow> forEach body ys s')"
  by (induction xs arbitrary: s) (auto split: sum.splits)

lemma usableBins_128_60: "usableBins 128 (6 / 10) = 76"
  by (simp add: usableBins_def)

lemma usableBins_128_55: "usableBins 128 (55 / 100) = 70"
  by (simp add: usableBins_def)

lemma usableBins_le:
  assumes "0 \<le> fraction" "fraction \<le> 1"
  shows "usableBins bins fraction \<le> bins"
proof -
  have "real bins * fraction \<le> real bins * 1"
    using assms by (intro mult_left_mono) simp_all
  then have "\<lfloor>real bins * fraction\<rfloor> \<le> \<lfloor>real bins\<rfloor>"
    by (intro floor_mono) simp
  then show ?thesis by (simp add: usableBins_def)
qed

lemma bucket_nonempty:
  assumes "0 < w" "i * w < u"
  shows "\<exists>a. bucketAverage d u w i = Some a"
  using assms by (auto simp: bucketAverage_def Let_def min_def)

lemma bucket_single:
  assumes "i < u"
  shows "bucketAverage d u 1 i = Some (real (unat (d ! i)))"
  using assms by (simp add: bucketAverage_def Let_def min_def)

lemma trackBar_range:
  assumes "barInRange smooth peak" "0 \<le> h" "h \<le> 100"
    and "trackBar (3 / 10) hold t h (smooth, peak, pt) = (d, p', t')"
  shows "barInRange d p'"
proof -
  define s1 where "s1 = smooth + (h - smooth) * (3 / 10)"
  define p1 where "p1 = (if s1 > peak then s1
                         else if t - pt > hold then max (peak * (85 / 100)) s1
                         else max (peak * (98 / 100)) s1)"
  have s1': "s1 = (7 / 10) * smooth + (3 / 10) * h"
    by (simp add: s1_def field_simps)
  have r: "0 \<le> smooth" "smooth \<le> peak" "peak \<le> 100"
    using assms(1) by (simp_all add: barInRange_def)
  have b: "0 \<le> s1" "s1 \<le> 100"
    using r assms(2,3) unfolding s1' by linarith+
  have pb: "s1 \<le> p1" "p1 \<le> 100" "0 \<le> p1"
    using b r unfolding p1_def by (auto simp: max_def)
  have "trackBar (3 / 10) hold t h (smooth, peak, pt)
          = (max s1 (p1 * (1 / 2)), p1, if s1 > peak then t else pt)"
    by (simp only: trackBar_def s1_def p1_def Let_def prod.case)
  with assms(4) have "d = max s1 (p1 * (1 / 2))" "p' = p1" by auto
  then show ?thesis using b pb by (auto simp: barInRange_def max_def)
qed

lemma animateBar_step:
  assumes "bucketAverage d u w i = Some a" "i < length (barSmoothValues s)"
    "i < length (barPeaks s)" "i < length (barPeakTimes s)"
  shows "animateBar d t u w i s =
     Inr (s\<lparr>barSmoothValues := (barSmoothValues s)
                [i := fst (trackBar (smoothingFactor s) (peakHoldTime s) t (processAudioLevel a) (barOf s i))],
            barPeaks := (barPeaks s)
                [i := fst (snd (trackBar (smoothingFactor s) (peakHoldTime s) t (processAudioLevel a) (barOf s i)))],
            barPeakTimes := (barPeakTimes s)
                [i := snd (snd (trackBar (smoothingFactor s) (peakHoldTime s) t (processAudioLevel a) (barOf s i)))]\<rparr>)"
  using assms by (simp add: animateBar_def barOf_def split: prod.splits)


lemma bars_loop:
  assumes cfg: "configured n s" and k: "k \<le> n"
    and av: "\<forall>i<k. bucketAverage d u w i = Some (a i)"
  shows "\<exists>A B C. forEach (animateBar d t u w) [0..<k] s
            = Inr (s\<lparr>barSmoothValues := A, barPeaks := B, barPeakTimes := C\<rparr>) \<and>
           length A = n \<and> length B = n \<and> length C = n \<and>
           (\<forall>i<n. (A ! i, B ! i, C ! i) =
              (if i < k then trackBar (3 / 10) 200 t (processAudioLevel (a i)) (barOf s i)
               else barOf s i))"
  using k av
proof (induction k)
  case 0
  have "s = s\<lparr>barSmoothValues := barSmoothValues s, barPeaks := barPeaks s,
                barPeakTimes := barPeakTimes s\<rparr>" by simp
  moreover have "length (barSmoothValues s) = n" "length (barPeaks s) = n"
    "length (barPeakTimes s) = n" using cfg by (simp_all add: configured_def)
  ultimately show ?case
    by (intro exI [of _ "barSmoothValues s"] exI [of _ "barPeaks s"]
          exI [of _ "barPeakTimes s"]) (simp add: barOf_def)
next
  case (Suc k)
  then obtain A B C where
    run: "forEach (animateBar d t u w) [0..<k] s
            = Inr (s\<lparr>barSmoothValues := A, barPeaks := B, barPeakTimes := C\<rparr>)"
    and len: "length A = n" "length B = n" "length C = n"
    and bars: "\<forall>i<n. (A ! i, B ! i, C ! i) =
              (if i < k then trackBar (3 / 10) 200 t (processAudioLevel (a i)) (barOf s i)
               else barOf s i)"
    by auto
  let ?s1 = "s\<lparr>barSmoothValues := A, barPeaks := B, barPeakTimes := C\<rparr>"
  have kn: "k < n" using Suc.prems by simp
  have ak: "bucketAverage d u w k = Some (a k)" using Suc.prems by simp
  have old: "barOf ?s1 k = barOf s k" using bars kn by (simp add: barOf_def)
  have fixed: "smoothingFactor s = 3 / 10" "peakHoldTime s = 200"
    using cfg by (simp_all add: configured_def)
  define r where "r = trackBar (3 / 10) 200 t (processAudioLevel (a k)) (barOf s k)"
  have step: "animateBar d t u w k ?s1
      = Inr (s\<lparr>barSmoothValues := A[k := fst r], barPeaks := B[k := fst (snd r)],
                barPeakTimes := C[k := snd (snd r)]\<rparr>)"
    using animateBar_step [of d u w k "a k" ?s1 t] ak kn len old fixed
    by (simp add: r_def)
  have "forEach (animateBar d t u w) [0..<Suc k] s
      = Inr (s\<lparr>barSmoothValues := A[k := fst r], barPeaks := B[k := fst (snd r)],
                barPeakTimes := C[k := snd (snd r)]\<rparr>)"
    by (simp add: forEach_append run step)
  moreover have "\<forall>i<n. (A[k := fst r] ! i, B[k := fst (snd r)] ! i, C[k := snd (snd r)] ! i) =
              (if i < Suc k then trackBar (3 / 10) 200 t (processAudioLevel (a i)) (barOf s i)
               else barOf s i)"
  proof (intro allI impI)
    fix i assume "i < n"
    show "(A[k := fst r] ! i, B[k := fst (snd r)] ! i, C[k := snd (snd r)] ! i) =
              (if i < Suc k then trackBar (3 / 10) 200 t (processAudioLevel (a i)) (barOf s i)
               else barOf s i)"
    proof (cases "i = k")
      case True
      then show ?thesis using kn len by (simp add: r_def)
    next
      case False
      then show ?thesis using bars \<open>i < n\<close> by (auto simp: less_Suc_eq)
    qed
  qed
  ultimately show ?case using len
    by (intro exI [of _ "A[k := fst r]"] exI [of _ "B[k := fst (snd r)]"]
          exI [of _ "C[k := snd (snd r)]"]) simp
qed


lemma data_nth:
  "i < n \<Longrightarrow> getByteFrequencyData n t ! i = snapshot t i"
  by (simp add: getByteFrequencyData_def)

lemma animate_running:
  assumes cfg: "configured 64 s" and on: "isRunning s"
  shows "\<exists>A B C. animate t s
            = Inr (s\<lparr>barSmoothValues := A, barPeaks := B, barPeakTimes := C,
                     spectrumHistory :=
                       (if length (A # spectrumHistory s) > maxHistoryLayers s
                        then butlast (A # spectrumHistory s) else A # spectrumHistory s),
                     animationId := Some (frameId t)\<rparr>) \<and>
           length A = 64 \<and> length B = 64 \<and> length C = 64 \<and>
           (\<forall>i<64. (A ! i, B ! i, C ! i) =
              trackBar (3 / 10) 200 (now t)
                (processAudioLevel (real (unat (snapshot t i)))) (barOf s i))"
proof -
  have bl: "bufferLength s = 128" and bc: "barCount s = 64"
    using cfg on by (simp_all add: configured_def)
  have av: "\<forall>i<64. bucketAverage (getByteFrequencyData 128 t) 76 1 i
                      = Some (real (unat (snapshot t i)))"
  proof (intro allI impI)
    fix i :: nat assume i: "i < 64"
    have "bucketAverage (getByteFrequencyData 128 t) 76 1 i
            = Some (real (unat (getByteFrequencyData 128 t ! i)))"
      by (rule bucket_single) (use i in simp)
    moreover have "getByteFrequencyData 128 t ! i = snapshot t i"
      by (rule data_nth) (use i in simp)
    ultimately show "bucketAverage (getByteFrequencyData 128 t) 76 1 i
                       = Some (real (unat (snapshot t i)))"
      by (simp only:)
  qed
  obtain A B C where
    loop: "forEach (animateBar (getByteFrequencyData 128 t) (now t) 76 1) [0..<64] s
            = Inr (s\<lparr>barSmoothValues := A, barPeaks := B, barPeakTimes := C\<rparr>)"
    and len: "length A = 64" "length B = 64" "length C = 64"
    and bars: "\<forall>i<64. (A ! i, B ! i, C ! i) =
              (if i < 64 then trackBar (3 / 10) 200 (now t)
                    (processAudioLevel (real (unat (snapshot t i)))) (barOf s i)
               else barOf s i)"
    using bars_loop [OF cfg order_refl av, of "now t"] by blast
  have "animate t s
            = Inr (s\<lparr>barSmoothValues := A, barPeaks := B, barPeakTimes := C,
                     spectrumHistory :=
                       (if length (A # spectrumHistory s) > maxHistoryLayers s
                        then butlast (A # spectrumHistory s) else A # spectrumHistory s),
                     animationId := Some (frameId t)\<rparr>)"
    unfolding animate_def Let_def bl bc usableBins_128_60
    using on loop by (simp add: updateSpectrumHistory_def Let_def)
  with len bars show ?thesis by auto
qed

lemma animate_keeps:
  assumes cfg: "configured 64 s" and rng: "barsInRange s"
  shows "\<exists>s'. animate t s = Inr s' \<and> configured 64 s' \<and> barsInRange s' \<and>
              isRunning s' = isRunning s \<and> maxHistoryLayers s' = maxHistoryLayers s"
proof (cases "isRunning s")
  case False
  then show ?thesis using cfg rng by (simp add: animate_def)
next
  case True
  from animate_running [OF cfg True, of t] obtain A B C where
    eq: "animate t s
            = Inr (s\<lparr>barSmoothValues := A, barPeaks := B, barPeakTimes := C,
                     spectrumHistory :=
                       (if length (A # spectrumHistory s) > maxHistoryLayers s
                        then butlast (A # spectrumHistory s) else A # spectrumHistory s),
                     animationId := Some (frameId t)\<rparr>)"
    and len: "length A = 64" "length B = 64" "length C = 64"
    and bars: "\<forall>i<64. (A ! i, B ! i, C ! i) =
              trackBar (3 / 10) 200 (now t)
                (processAudioLevel (real (unat (snapshot t i)))) (barOf s i)"
    by blast
  have "barInRange (A ! i) (B ! i)" if "i < 64" for i
  proof -
    have old: "barInRange (barSmoothValues s ! i) (barPeaks s ! i)"
      using rng cfg that by (simp add: barsInRange_def configured_def)
    have "trackBar (3 / 10) 200 (now t) (processAudioLevel (real (unat (snapshot t i))))
            (barSmoothValues s ! i, barPeaks s ! i, barPeakTimes s ! i) = (A ! i, B ! i, C ! i)"
      using bars that by (simp add: barOf_def)
    from trackBar_range [OF old _ _ this] level_range [of "real (unat (snapshot t i))"]
    show ?thesis by simp
  qed
  then have "barsInRange (s\<lparr>barSmoothValues := A, barPeaks := B, barPeakTimes := C,
                     spectrumHistory :=
                       (if length (A # spectrumHistory s) > maxHistoryLayers s
                        then butlast (A # spectrumHistory s) else A # spectrumHistory s),
                     animationId := Some (frameId t)\<rparr>)"
    using len by (simp add: barsInRange_def)
  moreover have "configured 64 (s\<lparr>barSmoothValues := A, barPeaks := B, barPeakTimes := C,
                     spectrumHistory :=
                       (if length (A # spectrumHistory s) > maxHistoryLayers s
                        then butlast (A # spectrumHistory s) else A # spectrumHistory s),
                     animationId := Some (frameId t)\<rparr>)"
    using cfg len by (simp add: configured_def)
  ultimately show ?thesis using eq by simp
qed

lemma new_AudioVisualizer_ok:
  "configured 64 new_AudioVisualizer \<and> barsInRange new_AudioVisualizer"
  by (simp add: configured_def barsInRange_def barInRange_def new_AudioVisualizer_def)

lemma stop_keeps:
  assumes "configured n s" "barsInRange s"
  shows "configured n (stop s) \<and> barsInRange (stop s)"
  using assms by (auto simp: configured_def barsInRange_def barInRange_def stop_def)

lemma initAudio_keeps:
  assumes "configured n s" "barsInRange s"
  shows "configured n (snd (initAudio g s)) \<and> barsInRange (snd (initAudio g s))"
  using assms by (auto simp: configured_def barsInRange_def initAudio_def)

lemma exec_keeps:
  assumes "configured 64 s" "barsInRange s"
  shows "exec e s = Inl AudioNotInitialized \<or>
         (\<exists>s'. exec e s = Inr s' \<and> configured 64 s' \<and> barsInRange s')"
proof (cases e)
  case (InitAudio g)
  then show ?thesis using initAudio_keeps [OF assms] by (simp add: exec_def)
next
  case (Start t)
  show ?thesis
  proof (cases "audioReady s")
    case False
    then show ?thesis using Start by (simp add: exec_def start_def)
  next
    case True
    have "configured 64 (s\<lparr>isRunning := True\<rparr>)" "barsInRange (s\<lparr>isRunning := True\<rparr>)"
      using assms True by (simp_all add: configured_def barsInRange_def)
    from animate_keeps [OF this, of t] show ?thesis
      using Start True by (auto simp: exec_def start_def)
  qed
next
  case (Frame t)
  then show ?thesis using animate_keeps [OF assms, of t] by (auto simp: exec_def)
next
  case Stop
  then show ?thesis using stop_keeps [OF assms] by (simp add: exec_def)
qed

lemma run_keeps:
  assumes "configured 64 s" "barsInRange s"
  shows "run es s = Inl AudioNotInitialized \<or>
         (\<exists>s'. run es s = Inr s' \<and> configured 64 s' \<and> barsInRange s')"
  using assms
proof (induction es arbitrary: s)
  case Nil
  then show ?case by simp
next
  case (Cons e es)
  from exec_keeps [OF Cons.prems, of e] show ?case
  proof
    assume "exec e s = Inl AudioNotInitialized"
    then show ?thesis by simp
  next
    assume "\<exists>s'. exec e s = Inr s' \<and> configured 64 s' \<and> barsInRange s'"
    then obtain s' where "exec e s = Inr s'" "configured 64 s'" "barsInRange s'" by blast
    with Cons.IH [of s'] show ?thesis by auto
  qed
qed

section \<open>The visualiser with particles keeps its configuration\<close>

lemma spawn_keeps:
  assumes "configured_docs s"
  shows "configured_docs (spawnParticle i h v r s)"
  using assms
  by (cases r) (auto simp: configured_docs_def configured_def spawnParticle_def Let_def)

lemma spawn_frame:
  "barOf (spawnParticle i h v r s) = barOf s \<and>
   spectrumHistory (spawnParticle i h v r s) = spectrumHistory s \<and>
   rollingAverages (spawnParticle i h v r s) = rollingAverages s \<and>
   isRunning (spawnParticle i h v r s) = isRunning s"
  by (cases r) (auto simp: spawnParticle_def Let_def barOf_def fun_eq_iff)

lemma detect_keeps:
  assumes "configured_docs s"
  shows "configured_docs (detectFrequencyPeaks i v h r s)"
  using assms spawn_keeps by (simp add: detectFrequencyPeaks_def Let_def)

lemma detect_frame:
  "barOf (detectFrequencyPeaks i v h r s) = barOf s \<and>
   spectrumHistory (detectFrequencyPeaks i v h r s) = spectrumHistory s \<and>
   rollingAverages (detectFrequencyPeaks i v h r s) = rollingAverages s \<and>
   isRunning (detectFrequencyPeaks i v h r s) = isRunning s"
  using spawn_frame by (simp add: detectFrequencyPeaks_def Let_def)

lemma rolling_keeps:
  assumes "configured_docs s"
  shows "configured_docs (updateRollingAverage i v s)"
  using assms by (simp add: configured_docs_def configured_def updateRollingAverage_def)

lemma rolling_frame:
  "barOf (updateRollingAverage i v s) = barOf s \<and>
   spectrumHistory (updateRollingAverage i v s) = spectrumHistory s \<and>
   isRunning (updateRollingAverage i v s) = isRunning s"
  by (simp add: updateRollingAverage_def barOf_def fun_eq_iff)

lemma updateParticlesFrom_length:
  "length (fst (updateParticlesFrom k ps pool)) \<le> length ps"
proof (induction k arbitrary: ps pool)
  case 0
  then show ?case by simp
next
  case (Suc k)
  show ?case
  proof (cases "p_life (moveParticle (ps ! k)) \<le> 0")
    case True
    have "length (fst (updateParticlesFrom k (take k ps @ drop (Suc k) ps)
                    (pool @ [moveParticle (ps ! k)])))
            \<le> length (take k ps @ drop (Suc k) ps)"
      by (rule Suc.IH)
    also have "\<dots> \<le> length ps" by simp
    finally show ?thesis using True by (simp add: Let_def)
  next
    case False
    have "length (fst (updateParticlesFrom k (ps[k := moveParticle (ps ! k)]) pool))
            \<le> length (ps[k := moveParticle (ps ! k)])"
      by (rule Suc.IH)
    then show ?thesis using False by (simp add: Let_def)
  qed
qed

lemma updateParticles_eq:
  "updateParticles s
     = s\<lparr>particles := fst (updateParticlesFrom (length (particles s)) (particles s) (particlePool s)),
          particlePool := snd (updateParticlesFrom (length (particles s)) (particles s) (particlePool s))\<rparr>"
  by (simp add: updateParticles_def split: prod.splits)

lemma updateParticles_length:
  "length (particles (updateParticles s)) \<le> length (particles s)"
  using updateParticlesFrom_length [of "length (particles s)" "particles s" "particlePool s"]
  by (simp add: updateParticles_eq)

lemma updateParticles_keeps:
  assumes "configured_docs s"
  shows "configured_docs (updateParticles s)"
  using assms updateParticlesFrom_length [of "length (particles s)" "particles s" "particlePool s"]
  by (simp add: updateParticles_eq configured_docs_def configured_def)

lemma updateParticles_frame:
  "barOf (updateParticles s) = barOf s \<and>
   spectrumHistory (updateParticles s) = spectrumHistory s \<and>
   isRunning (updateParticles s) = isRunning s \<and>
   barSmoothValues (updateParticles s) = barSmoothValues s"
  by (simp add: updateParticles_eq barOf_def fun_eq_iff)


lemma animateBar_docs_step:
  assumes cfg: "configured_docs s" and i: "i < 48"
    and av: "bucketAverage d u w i = Some a"
  shows "\<exists>s'. animateBar_docs d t u w i s = Inr s' \<and> configured_docs s' \<and>
           barOf s' = (barOf s)(i := trackBar (3 / 10) 200 (now t)
                                       (processAudioLevel_docs a) (barOf s i)) \<and>
           spectrumHistory s' = spectrumHistory s \<and> isRunning s' = isRunning s"
proof -
  define r where "r = trackBar (3 / 10) 200 (now t) (processAudioLevel_docs a) (barOf s i)"
  define s1 where "s1 = s\<lparr>barSmoothValues := (barSmoothValues s)[i := fst r],
                           barPeaks := (barPeaks s)[i := fst (snd r)],
                           barPeakTimes := (barPeakTimes s)[i := snd (snd r)]\<rparr>"
  define s2 where "s2 = updateRollingAverage i (processAudioLevel_docs a) s1"
  define s3 where "s3 = detectFrequencyPeaks i (processAudioLevel_docs a) (fst r) (randoms t i) s2"
  have len: "i < length (barSmoothValues s)" "i < length (barPeaks s)"
    "i < length (barPeakTimes s)" "i < length (rollingAverages s)"
    and fixed: "smoothingFactor s = 3 / 10" "peakHoldTime s = 200"
    using cfg i by (simp_all add: configured_docs_def configured_def)
  have eq: "animateBar_docs d t u w i s = Inr s3"
    using av len
    by (simp add: animateBar_docs_def Let_def s3_def s2_def s1_def r_def barOf_def fixed
        case_prod_beta)
  have c1: "configured_docs s1"
    using cfg by (simp add: s1_def configured_docs_def configured_def)
  have c3: "configured_docs s3"
    unfolding s3_def s2_def by (intro detect_keeps rolling_keeps c1)
  have b1: "barOf s1 = (barOf s)(i := r)"
    using len by (auto simp: s1_def barOf_def fun_eq_iff)
  have b3: "barOf s3 = barOf s1" "spectrumHistory s3 = spectrumHistory s1"
    "isRunning s3 = isRunning s1"
    unfolding s3_def s2_def by (simp_all add: detect_frame rolling_frame)
  have "spectrumHistory s1 = spectrumHistory s" "isRunning s1 = isRunning s"
    by (simp_all add: s1_def)
  with eq c3 b1 b3 show ?thesis by (simp add: r_def)
qed

lemma bars_loop_docs:
  assumes cfg: "configured_docs s" and k: "k \<le> 48"
    and av: "\<forall>i<k. bucketAverage d u w i = Some (a i)"
  shows "\<exists>s'. forEach (animateBar_docs d t u w) [0..<k] s = Inr s' \<and> configured_docs s' \<and>
           (\<forall>i. barOf s' i =
              (if i < k then trackBar (3 / 10) 200 (now t) (processAudioLevel_docs (a i)) (barOf s i)
               else barOf s i)) \<and>
           spectrumHistory s' = spectrumHistory s \<and> isRunning s' = isRunning s"
  using k av
proof (induction k)
  case 0
  then show ?case using cfg by simp
next
  case (Suc k)
  then obtain s1 where
    run1: "forEach (animateBar_docs d t u w) [0..<k] s = Inr s1"
    and c1: "configured_docs s1"
    and b1: "\<forall>i. barOf s1 i =
              (if i < k then trackBar (3 / 10) 200 (now t) (processAudioLevel_docs (a i)) (barOf s i)
               else barOf s i)"
    and f1: "spectrumHistory s1 = spectrumHistory s" "isRunning s1 = isRunning s"
    by auto
  have kn: "k < 48" and ak: "bucketAverage d u w k = Some (a k)"
    using Suc.prems by simp_all
  from animateBar_docs_step [OF c1 kn ak, of t] obtain s2 where
    step: "animateBar_docs d t u w k s1 = Inr s2"
    and c2: "configured_docs s2"
    and b2: "barOf s2 = (barOf s1)(k := trackBar (3 / 10) 200 (now t)
                                       (processAudioLevel_docs (a k)) (barOf s1 k))"
    and f2: "spectrumHistory s2 = spectrumHistory s1" "isRunning s2 = isRunning s1"
    by blast
  have "forEach (animateBar_docs d t u w) [0..<Suc k] s = Inr s2"
    by (simp add: forEach_append run1 step)
  moreover have "\<forall>i. barOf s2 i =
              (if i < Suc k then trackBar (3 / 10) 200 (now t) (processAudioLevel_docs (a i)) (barOf s i)
               else barOf s i)"
    using b1 by (auto simp: b2 less_Suc_eq)
  ultimately show ?case using c2 f1 f2 by simp
qed

lemma energy_keeps:
  assumes "configured_docs s"
  shows "\<exists>s'. calculateMusicEnergy s = Inr s' \<and> configured_docs s' \<and> barOf s' = barOf s \<and>
           spectrumHistory s' = spectrumHistory s \<and> isRunning s' = isRunning s \<and>
           barSmoothValues s' = barSmoothValues s"
proof -
  have bc: "barCount s = 48" "length (barSmoothValues s) = 48"
    using assms by (simp_all add: configured_docs_def configured_def)
  have f: "nat \<lfloor>real (48::nat) * (2 / 10)\<rfloor> = 9" "nat \<lfloor>real (48::nat) * (6 / 10)\<rfloor> = 28"
    by simp_all
  show ?thesis
    unfolding calculateMusicEnergy_def Let_def bc f
    using assms by (simp add: configured_docs_def configured_def barOf_def fun_eq_iff)
qed

lemma history_docs_keeps:
  assumes "configured_docs s"
  shows "configured_docs (updateSpectrumHistory_docs fs s) \<and>
         barOf (updateSpectrumHistory_docs fs s) = barOf s \<and>
         isRunning (updateSpectrumHistory_docs fs s) = isRunning s \<and>
         barSmoothValues (updateSpectrumHistory_docs fs s) = barSmoothValues s \<and>
         spectrumHistory (updateSpectrumHistory_docs fs s)
           = (if length (barSmoothValues s # spectrumHistory s) > (if fs then 15 else 10)
              then butlast (barSmoothValues s # spectrumHistory s)
              else barSmoothValues s # spectrumHistory s)"
  using assms
  by (simp add: updateSpectrumHistory_docs_def Let_def configured_docs_def configured_def
      barOf_def fun_eq_iff)


lemma animate_docs_running:
  assumes cfg: "configured_docs s" and on: "isRunning s"
  shows "\<exists>s'. animate_docs t s = Inr s' \<and> configured_docs s' \<and> isRunning s' \<and>
           (\<forall>i. barOf s' i =
              (if i < 48 then trackBar (3 / 10) 200 (now t)
                    (processAudioLevel_docs (real (unat (snapshot t i)))) (barOf s i)
               else barOf s i)) \<and>
           spectrumHistory s'
             = (if length (barSmoothValues s' # spectrumHistory s) > (if fullscreen t then 15 else 10)
                then butlast (barSmoothValues s' # spectrumHistory s)
                else barSmoothValues s' # spectrumHistory s)"
proof -
  have bl: "bufferLength s = 128" and bc: "barCount s = 48"
    using cfg on by (simp_all add: configured_docs_def configured_def)
  have av: "\<forall>i<48. bucketAverage (getByteFrequencyData 128 t) 70 1 i
                      = Some (real (unat (snapshot t i)))"
  proof (intro allI impI)
    fix i :: nat assume i: "i < 48"
    have "bucketAverage (getByteFrequencyData 128 t) 70 1 i
            = Some (real (unat (getByteFrequencyData 128 t ! i)))"
      by (rule bucket_single) (use i in simp)
    moreover have "getByteFrequencyData 128 t ! i = snapshot t i"
      by (rule data_nth) (use i in simp)
    ultimately show "bucketAverage (getByteFrequencyData 128 t) 70 1 i
                       = Some (real (unat (snapshot t i)))"
      by (simp only:)
  qed
  from bars_loop_docs [OF cfg order_refl av, of t] obtain s1 where
    loop: "forEach (animateBar_docs (getByteFrequencyData 128 t) t 70 1) [0..<48] s = Inr s1"
    and c1: "configured_docs s1"
    and b1: "\<forall>i. barOf s1 i =
              (if i < 48 then trackBar (3 / 10) 200 (now t)
                    (processAudioLevel_docs (real (unat (snapshot t i)))) (barOf s i)
               else barOf s i)"
    and f1: "spectrumHistory s1 = spectrumHistory s" "isRunning s1 = isRunning s"
    by blast
  from energy_keeps [OF c1] obtain s2 where
    en: "calculateMusicEnergy s1 = Inr s2" and c2: "configured_docs s2"
    and f2: "barOf s2 = barOf s1" "spectrumHistory s2 = spectrumHistory s1"
      "isRunning s2 = isRunning s1" "barSmoothValues s2 = barSmoothValues s1"
    by blast
  define s3 where "s3 = updateSpectrumHistory_docs (fullscreen t) s2"
  define s4 where "s4 = updateParticles s3"
  define s5 where "s5 = s4\<lparr>animationId := Some (frameId t)\<rparr>"
  have w: "max 1 (70 div 48) = (1::nat)" by simp
  have eq: "animate_docs t s = Inr s5"
    unfolding animate_docs_def Let_def bl bc usableBins_128_55 w
    using on loop en by (simp add: s5_def s4_def s3_def)
  have c3: "configured_docs s3" and f3: "barOf s3 = barOf s2" "isRunning s3 = isRunning s2"
    "barSmoothValues s3 = barSmoothValues s2"
    and h3: "spectrumHistory s3
           = (if length (barSmoothValues s2 # spectrumHistory s2) > (if fullscreen t then 15 else 10)
              then butlast (barSmoothValues s2 # spectrumHistory s2)
              else barSmoothValues s2 # spectrumHistory s2)"
    using history_docs_keeps [OF c2, of "fullscreen t"] by (simp_all add: s3_def)
  have c4: "configured_docs s4" unfolding s4_def by (rule updateParticles_keeps [OF c3])
  have f4: "barOf s4 = barOf s3" "spectrumHistory s4 = spectrumHistory s3"
    "isRunning s4 = isRunning s3" "barSmoothValues s4 = barSmoothValues s3"
    by (simp_all add: s4_def updateParticles_frame)
  have c5: "configured_docs s5"
    using c4 by (simp add: s5_def configured_docs_def configured_def)
  have f5: "barOf s5 = barOf s4" "spectrumHistory s5 = spectrumHistory s4"
    "isRunning s5 = isRunning s4" "barSmoothValues s5 = barSmoothValues s4"
    by (simp_all add: s5_def barOf_def fun_eq_iff)
  show ?thesis
    using eq c5 b1 on by (simp add: f5 f4 f3 f2 f1 h3)
qed

lemma animate_docs_keeps:
  assumes cfg: "configured_docs s"
  shows "\<exists>s'. animate_docs t s = Inr s' \<and> configured_docs s'"
proof (cases "isRunning s")
  case False
  then show ?thesis using cfg by (simp add: animate_docs_def)
next
  case True
  from animate_docs_running [OF cfg True, of t] show ?thesis by blast
qed

lemma new_ParticleVisualizer_ok: "configured_docs (new_ParticleVisualizer w h)"
  by (simp add: new_ParticleVisualizer_def setupCanvas_def Let_def configured_docs_def
      configured_def)

lemma stop_docs_keeps:
  assumes "configured_docs s"
  shows "configured_docs (stop_docs s)"
  using assms by (simp add: stop_docs_def configured_docs_def configured_def)

lemma initAudio_docs_keeps:
  assumes "configured_docs s"
  shows "configured_docs (snd (initAudio g s))"
  using assms by (simp add: initAudio_def configured_docs_def configured_def)

lemma exec_docs_keeps:
  assumes "configured_docs s"
  shows "exec_docs e s = Inl AudioNotInitialized \<or>
         (\<exists>s'. exec_docs e s = Inr s' \<and> configured_docs s')"
proof (cases e)
  case (InitAudio g)
  then show ?thesis using initAudio_docs_keeps [OF assms] by (simp add: exec_docs_def)
next
  case (Start t)
  show ?thesis
  proof (cases "audioReady s")
    case False
    then show ?thesis using Start by (simp add: exec_docs_def start_docs_def)
  next
    case True
    have "configured_docs (s\<lparr>isRunning := True\<rparr>)"
      using assms True by (simp add: configured_docs_def configured_def)
    from animate_docs_keeps [OF this, of t] show ?thesis
      using Start True by (auto simp: exec_docs_def start_docs_def)
  qed
next
  case (Frame t)
  then show ?thesis using animate_docs_keeps [OF assms, of t] by (auto simp: exec_docs_def)
next
  case Stop
  then show ?thesis using stop_docs_keeps [OF assms] by (simp add: exec_docs_def)
qed

lemma run_docs_keeps:
  assumes "configured_docs s"
  shows "run_docs es s = Inl AudioNotInitialized \<or>
         (\<exists>s'. run_docs es s = Inr s' \<and> configured_docs s')"
  using assms
proof (induction es arbitrary: s)
  case Nil
  then show ?case by simp
next
  case (Cons e es)
  from exec_docs_keeps [OF Cons.prems, of e] show ?case
  proof
    assume "exec_docs e s = Inl AudioNotInitialized"
    then show ?thesis by simp
  next
    assume "\<exists>s'. exec_docs e s = Inr s' \<and> configured_docs s'"
    then obtain s' where "exec_docs e s = Inr s'" "configured_docs s'" by blast
    with Cons.IH [of s'] show ?thesis by auto
  qed
qed

section \<open>Claims about the bar tracks, the buckets and the particles\<close>

text \<open>
  C5. Whatever the page does and whatever bytes the analyser delivers, starting from the
  constructor's all-zero state, after every event the smoothed value and the peak of
  every bar lie between 0 and 100; and so do the displayed height written back into the
  smoothed value and the new peak that one more step of the bar track computes from
  there, for any raw level and any time.
\<close>

theorem C5_bars_in_range:
  assumes "run events new_AudioVisualizer = Inr s" and "i < barCount s"
  shows "0 \<le> barSmoothValues s ! i \<and> barSmoothValues s ! i \<le> 100 \<and>
         0 \<le> barPeaks s ! i \<and> barPeaks s ! i \<le> 100 \<and>
         (case trackBar (smoothingFactor s) (peakHoldTime s) currentTime
                 (processAudioLevel raw) (barOf s i) of
            (displayHeight, peak, peakTime) \<Rightarrow>
              0 \<le> displayHeight \<and> displayHeight \<le> 100 \<and> 0 \<le> peak \<and> peak \<le> 100)"
proof -
  from run_keeps [of new_AudioVisualizer events] new_AudioVisualizer_ok assms(1)
  have cfg: "configured 64 s" and rng: "barsInRange s" by auto
  have i: "i < length (barSmoothValues s)" and f: "smoothingFactor s = 3 / 10"
    using cfg assms(2) by (simp_all add: configured_def)
  have old: "barInRange (barSmoothValues s ! i) (barPeaks s ! i)"
    using rng i by (simp add: barsInRange_def)
  obtain d p pt where
    r: "trackBar (3 / 10) (peakHoldTime s) currentTime (processAudioLevel raw)
          (barSmoothValues s ! i, barPeaks s ! i, barPeakTimes s ! i) = (d, p, pt)"
    by (metis prod_cases3)
  from trackBar_range [OF old _ _ r] level_range [of raw]
  have "barInRange d p" by simp
  with old r show ?thesis by (simp add: barInRange_def f barOf_def)
qed

lemma first_loud_tick:
  "\<exists>s. run [InitAudio True, Start loudTick] new_AudioVisualizer = Inr s \<and>
       barCount s = 64 \<and> isRunning s \<and> barOf s 5 = (30, 30, 1000)"
proof -
  let ?s0 = "(snd (initAudio True new_AudioVisualizer))\<lparr>isRunning := True\<rparr>"
  have cfg: "configured 64 ?s0"
    by (simp add: configured_def initAudio_def new_AudioVisualizer_def)
  from animate_running [OF cfg, of loudTick] obtain A B C where
    eq: "animate loudTick ?s0
            = Inr (?s0\<lparr>barSmoothValues := A, barPeaks := B, barPeakTimes := C,
                     spectrumHistory :=
                       (if length (A # spectrumHistory ?s0) > maxHistoryLayers ?s0
                        then butlast (A # spectrumHistory ?s0) else A # spectrumHistory ?s0),
                     animationId := Some (frameId loudTick)\<rparr>)"
    and bars: "\<forall>i<64. (A ! i, B ! i, C ! i) =
              trackBar (3 / 10) 200 (now loudTick)
                (processAudioLevel (real (unat (snapshot loudTick i)))) (barOf ?s0 i)"
    by auto
  have "barOf ?s0 5 = (0, 0, 0)"
    by (simp add: barOf_def initAudio_def new_AudioVisualizer_def)
  then have "(A ! 5, B ! 5, C ! 5) = (30, 30, 1000)"
    using bars by (simp add: loudTick_def processAudioLevel_def trackBar_def Let_def)
  then show ?thesis
    using eq
    by (simp add: exec_def start_def initAudio_def new_AudioVisualizer_def barOf_def)
qed

theorem C5_bars_in_range_witness:
  "\<exists>s. run [InitAudio True, Start loudTick] new_AudioVisualizer = Inr s \<and>
       barSmoothValues s ! 5 = 30 \<and> barPeaks s ! 5 = 30 \<and>
       0 \<le> barSmoothValues s ! 5 \<and> barSmoothValues s ! 5 \<le> 100 \<and>
       0 \<le> barPeaks s ! 5 \<and> barPeaks s ! 5 \<le> 100"
proof -
  from first_loud_tick obtain s where
    r: "run [InitAudio True, Start loudTick] new_AudioVisualizer = Inr s"
    and n: "barCount s = 64" and b: "barOf s 5 = (30, 30, 1000)"
    by blast
  have "5 < barCount s" using n by simp
  from C5_bars_in_range [OF r this] r b show ?thesis
    by (auto simp: barOf_def)
qed


lemma first_loud_tick_docs:
  "\<exists>s. run_docs [InitAudio True, Start loudTick] (new_ParticleVisualizer 800 200) = Inr s \<and>
       configured_docs s \<and> isRunning s \<and>
       barOf s 5 = trackBar (3 / 10) 200 1000 (processAudioLevel_docs 255) (0, 0, 0)"
proof -
  let ?s0 = "(snd (initAudio True (new_ParticleVisualizer 800 200)))\<lparr>isRunning := True\<rparr>"
  have cfg: "configured_docs ?s0"
    using new_ParticleVisualizer_ok [of 800 200]
    by (simp add: configured_docs_def configured_def initAudio_def)
  have on: "isRunning ?s0" by simp
  from animate_docs_running [OF cfg on, of loudTick] obtain s where
    eq: "animate_docs loudTick ?s0 = Inr s" and c: "configured_docs s" and r: "isRunning s"
    and bars: "\<forall>i. barOf s i =
              (if i < 48 then trackBar (3 / 10) 200 (now loudTick)
                    (processAudioLevel_docs (real (unat (snapshot loudTick i)))) (barOf ?s0 i)
               else barOf ?s0 i)"
    by blast
  have "barOf ?s0 5 = (0, 0, 0)"
    by (simp add: barOf_def initAudio_def new_ParticleVisualizer_def setupCanvas_def Let_def)
  then have "barOf s 5 = trackBar (3 / 10) 200 1000 (processAudioLevel_docs 255) (0, 0, 0)"
    using bars by (simp add: loudTick_def)
  moreover have "run_docs [InitAudio True, Start loudTick] (new_ParticleVisualizer 800 200) = Inr s"
    using eq by (simp add: exec_docs_def start_docs_def initAudio_def)
  ultimately show ?thesis using c r by blast
qed

text \<open>
  C7. With the bin count and the bar counts the code constructs (128 bins; 64 bars in
  \<open>audio-visualizer.js\<close>, 48 in \<open>docs/app.js\<close>), in every running state that a
  sequence of events reaches, the bucket of every bar holds at least one bin, so the
  average never divides by a zero count; a whole tick yields no value that is not a finite
  number, and no sequence of events ends in \<open>NotFinite\<close>.
\<close>

theorem C7_buckets_never_empty:
  assumes "run events new_AudioVisualizer = Inr s" and "isRunning s" and "i < barCount s"
    and "run_docs events' (new_ParticleVisualizer w h) = Inr s'" and "isRunning s'"
    and "j < barCount s'"
  shows "bucketAverage (getByteFrequencyData (bufferLength s) t)
           (usableBins (bufferLength s) (6 / 10))
           (usableBins (bufferLength s) (6 / 10) div barCount s) i \<noteq> None \<and>
         (\<exists>x. animate t s = Inr x) \<and>
         bucketAverage (getByteFrequencyData (bufferLength s') t)
           (usableBins (bufferLength s') (55 / 100))
           (max 1 (usableBins (bufferLength s') (55 / 100) div barCount s')) j \<noteq> None \<and>
         (\<exists>x. animate_docs t s' = Inr x) \<and>
         run others new_AudioVisualizer \<noteq> Inl NotFinite \<and>
         run_docs others' (new_ParticleVisualizer w' h') \<noteq> Inl NotFinite"
proof -
  from run_keeps [of new_AudioVisualizer events] new_AudioVisualizer_ok assms(1)
  have cfg: "configured 64 s" and rng: "barsInRange s" by auto
  from run_docs_keeps [OF new_ParticleVisualizer_ok, of events' w h] assms(4)
  have cfg': "configured_docs s'" by auto
  have n: "bufferLength s = 128" "barCount s = 64"
    using cfg assms(2) by (simp_all add: configured_def)
  have n': "bufferLength s' = 128" "barCount s' = 48"
    using cfg' assms(5) by (simp_all add: configured_docs_def configured_def)
  have w: "76 div 64 = (1::nat)" "max 1 (70 div 48) = (1::nat)" by simp_all
  have "i * 1 < 76" "j * 1 < 70" using assms(3,6) n n' by simp_all
  then have "\<exists>a. bucketAverage (getByteFrequencyData 128 t) 76 1 i = Some a"
    "\<exists>a. bucketAverage (getByteFrequencyData 128 t) 70 1 j = Some a"
    by (intro bucket_nonempty; simp)+
  moreover have "\<exists>x. animate t s = Inr x" using animate_keeps [OF cfg rng, of t] by blast
  moreover have "\<exists>x. animate_docs t s' = Inr x" using animate_docs_keeps [OF cfg', of t] by blast
  moreover have "run others new_AudioVisualizer \<noteq> Inl NotFinite"
    using run_keeps [of new_AudioVisualizer others] new_AudioVisualizer_ok by auto
  moreover have "run_docs others' (new_ParticleVisualizer w' h') \<noteq> Inl NotFinite"
    using run_docs_keeps [OF new_ParticleVisualizer_ok, of others' w' h'] by auto
  ultimately show ?thesis
    unfolding n n' usableBins_128_60 usableBins_128_55 w by auto
qed

theorem C7_buckets_never_empty_witness:
  "\<exists>s s'. run [InitAudio True, Start loudTick] new_AudioVisualizer = Inr s \<and>
          run_docs [InitAudio True, Start loudTick] (new_ParticleVisualizer 800 200) = Inr s' \<and>
          bucketAverage (getByteFrequencyData (bufferLength s) (silentTick 0))
            (usableBins (bufferLength s) (6 / 10))
            (usableBins (bufferLength s) (6 / 10) div barCount s) 63 \<noteq> None \<and>
          (\<exists>x. animate (silentTick 0) s = Inr x) \<and>
          bucketAverage (getByteFrequencyData (bufferLength s') (silentTick 0))
            (usableBins (bufferLength s') (55 / 100))
            (max 1 (usableBins (bufferLength s') (55 / 100) div barCount s')) 47 \<noteq> None \<and>
          (\<exists>x. animate_docs (silentTick 0) s' = Inr x) \<and>
          run [Frame loudTick, Stop] new_AudioVisualizer \<noteq> Inl NotFinite"
proof -
  from first_loud_tick obtain s where
    r: "run [InitAudio True, Start loudTick] new_AudioVisualizer = Inr s"
    and n: "barCount s = 64" and on: "isRunning s"
    by blast
  from first_loud_tick_docs obtain s' where
    r': "run_docs [InitAudio True, Start loudTick] (new_ParticleVisualizer 800 200) = Inr s'"
    and c': "configured_docs s'" and on': "isRunning s'"
    by blast
  have i: "63 < barCount s" using n by simp
  have j: "47 < barCount s'" using c' by (simp add: configured_docs_def configured_def)
  from C7_buckets_never_empty
         [OF r on i r' on' j, of "silentTick 0" "[Frame loudTick, Stop]"] r r'
  show ?thesis by blast
qed

text \<open>
  C8. In every state that a sequence of events reaches, the number of live particles is at
  most \<open>maxParticles\<close>, which is 200; a spawn from such a state stays within the bound;
  and a spawn attempted in any state whose particle count equals \<open>maxParticles\<close> changes
  nothing at all.
\<close>

theorem C8_particles_bounded:
  assumes "run_docs events (new_ParticleVisualizer w h) = Inr s"
    and "length (particles x) = maxParticles x"
  shows "length (particles s) \<le> maxParticles s \<and> maxParticles s = 200 \<and>
         length (particles (spawnParticle barIndex height intensity rnd s)) \<le> maxParticles s \<and>
         spawnParticle barIndex height intensity rnd x = x"
proof -
  from run_docs_keeps [OF new_ParticleVisualizer_ok, of events w h] assms(1)
  have cfg: "configured_docs s" by auto
  from spawn_keeps [OF cfg, of barIndex height intensity rnd]
  have "length (particles (spawnParticle barIndex height intensity rnd s)) \<le> 200"
    by (simp add: configured_docs_def)
  moreover have "spawnParticle barIndex height intensity rnd x = x"
    using assms(2) by (simp add: spawnParticle_def)
  ultimately show ?thesis using cfg by (simp add: configured_docs_def)
qed

theorem C8_particles_bounded_witness:
  "(\<exists>s. run_docs [InitAudio True, Start loudTick] (new_ParticleVisualizer 800 200) = Inr s \<and>
        length (particles s) \<le> maxParticles s \<and> maxParticles s = 200) \<and>
   spawnParticle 3 50 60 (0, 0, 0)
     ((new_ParticleVisualizer 800 200)
        \<lparr>particles := replicate 200
           \<lparr>p_x = 0, p_y = 0, p_vx = 0, p_vy = 0, p_life = 1, p_decay = 1 / 100, p_size = 2,
             p_frequency = 0, p_color = (0, 0, 0)\<rparr>\<rparr>)
     = (new_ParticleVisualizer 800 200)
        \<lparr>particles := replicate 200
           \<lparr>p_x = 0, p_y = 0, p_vx = 0, p_vy = 0, p_life = 1, p_decay = 1 / 100, p_size = 2,
             p_frequency = 0, p_color = (0, 0, 0)\<rparr>\<rparr>"
proof -
  let ?x = "(new_ParticleVisualizer 800 200)
        \<lparr>particles := replicate 200
           \<lparr>p_x = 0, p_y = 0, p_vx = 0, p_vy = 0, p_life = 1, p_decay = 1 / 100, p_size = 2,
             p_frequency = 0, p_color = (0, 0, 0)\<rparr>\<rparr>"
  from first_loud_tick_docs obtain s where
    r: "run_docs [InitAudio True, Start loudTick] (new_ParticleVisualizer 800 200) = Inr s"
    by blast
  have full: "length (particles ?x) = maxParticles ?x"
    by (simp add: new_ParticleVisualizer_def setupCanvas_def Let_def)
  from C8_particles_bounded [OF r full, of 3 50 60 "(0, 0, 0)"] r
  show ?thesis by blast
qed

section \<open>Stopping, restarting and the history ring\<close>

lemma cancel_twice: "cancelAnimation (cancelAnimation h) = cancelAnimation h"
  by (simp add: cancelAnimation_def split: option.splits)

lemma stop_docs_twice: "stop_docs (stop_docs s) = stop_docs s"
  by (simp add: stop_docs_def cancel_twice)

lemma stop_twice: "stop (stop s) = stop s"
  by (simp add: stop_def cancel_twice)

lemma run_docs_append:
  "run_docs (es @ fs) s =
     (case run_docs es s of Inl e \<Rightarrow> Inl e | Inr s' \<Rightarrow> run_docs fs s')"
  by (induction es arbitrary: s) (auto split: sum.splits)

lemma run_append:
  "run (es @ fs) s = (case run es s of Inl e \<Rightarrow> Inl e | Inr s' \<Rightarrow> run fs s')"
  by (induction es arbitrary: s) (auto split: sum.splits)

lemma start_docs_ready:
  assumes cfg: "configured_docs s" and ready: "audioReady s"
  shows "\<exists>s'. start_docs t s = Inr s' \<and> configured_docs s' \<and> isRunning s' \<and>
           (\<forall>i<48. barOf s' i =
              trackBar (3 / 10) 200 (now t)
                (processAudioLevel_docs (real (unat (snapshot t i)))) (barOf s i)) \<and>
           spectrumHistory s'
             = (if length (barSmoothValues s' # spectrumHistory s) > (if fullscreen t then 15 else 10)
                then butlast (barSmoothValues s' # spectrumHistory s)
                else barSmoothValues s' # spectrumHistory s)"
proof -
  let ?s0 = "s\<lparr>isRunning := True\<rparr>"
  have c: "configured_docs ?s0"
    using cfg ready by (simp add: configured_docs_def configured_def)
  have on: "isRunning ?s0" by simp
  from animate_docs_running [OF c on, of t] ready show ?thesis
    by (auto simp: start_docs_def barOf_def)
qed

lemma level_docs_loud: "50 < processAudioLevel_docs 255 \<and> processAudioLevel_docs 255 \<le> 100"
proof -
  have "exp (- 6 :: real) < 1" by simp
  then have "1 + exp (- 6 :: real) < 2" by simp
  then have "100 / 2 < 100 / (1 + exp (- 6 :: real))"
    by (intro divide_strict_left_mono) (simp_all add: add_pos_pos)
  moreover have "processAudioLevel_docs 255 = max 1 (min 100 (100 / (1 + exp (- 6))))"
    by (simp add: processAudioLevel_docs_def applySigmoidScaling_def Let_def)
  ultimately show ?thesis by (simp add: max_def min_def)
qed

lemma level_docs_silent: "processAudioLevel_docs 0 = 1"
  by (simp add: processAudioLevel_docs_def applySigmoidScaling_def Let_def)


lemma stale_peak_run:
  "\<exists>s s' f.
     run_docs [InitAudio True, Start loudTick, Stop] (new_ParticleVisualizer 800 200) = Inr s \<and>
     barSmoothValues s ! 5 = 0 \<and> 15 < barPeaks s ! 5 \<and>
     run_docs [InitAudio True, Start loudTick, Stop, Start (silentTick 0)]
       (new_ParticleVisualizer 800 200) = Inr s' \<and>
     6 < barSmoothValues s' ! 5 \<and>
     run_docs [InitAudio True, Start (silentTick 0)] (new_ParticleVisualizer 800 200) = Inr f \<and>
     barSmoothValues f ! 5 = 3 / 10"
proof -
  define L where "L = processAudioLevel_docs 255"
  have L: "50 < L" "L \<le> 100" using level_docs_loud by (simp_all add: L_def)
  let ?new = "new_ParticleVisualizer 800 200"
  let ?s0 = "snd (initAudio True ?new)"
  have c0: "configured_docs ?s0" by (rule initAudio_docs_keeps [OF new_ParticleVisualizer_ok])
  have r0: "audioReady ?s0" by (simp add: initAudio_def)
  have b0: "barOf ?s0 5 = (0, 0, 0)"
    by (simp add: barOf_def initAudio_def new_ParticleVisualizer_def setupCanvas_def Let_def)
  from start_docs_ready [OF c0 r0, of loudTick] obtain s1 where
    e1: "start_docs loudTick ?s0 = Inr s1" and c1: "configured_docs s1" and on1: "isRunning s1"
    and b1: "\<forall>i<48. barOf s1 i =
              trackBar (3 / 10) 200 (now loudTick)
                (processAudioLevel_docs (real (unat (snapshot loudTick i)))) (barOf ?s0 i)"
    by blast
  have "barOf s1 5 = trackBar (3 / 10) 200 1000 L (0, 0, 0)"
    using b1 b0 by (simp add: loudTick_def L_def)
  also have "\<dots> = (3 * L / 10, 3 * L / 10, 1000)"
    using L by (simp add: trackBar_def Let_def max_def)
  finally have v1: "barOf s1 5 = (3 * L / 10, 3 * L / 10, 1000)" .
  let ?s2 = "stop_docs s1"
  have c2: "configured_docs ?s2" by (rule stop_docs_keeps [OF c1])
  have r2: "audioReady ?s2"
    using c1 on1 by (simp add: stop_docs_def configured_docs_def configured_def)
  have len1: "length (barSmoothValues s1) = 48"
    using c1 by (simp add: configured_docs_def configured_def)
  have v2: "barOf ?s2 5 = (0, 3 * L / 10, 1000)"
    using v1 len1 by (simp add: barOf_def stop_docs_def)
  from start_docs_ready [OF c2 r2, of "silentTick 0"] obtain s3 where
    e3: "start_docs (silentTick 0) ?s2 = Inr s3"
    and b3: "\<forall>i<48. barOf s3 i =
              trackBar (3 / 10) 200 (now (silentTick 0))
                (processAudioLevel_docs (real (unat (snapshot (silentTick 0) i)))) (barOf ?s2 i)"
    by blast
  have "barOf s3 5 = trackBar (3 / 10) 200 2000 1 (0, 3 * L / 10, 1000)"
    using b3 by (simp add: v2 silentTick_def level_docs_silent)
  also have "\<dots> = (51 * L / 400, 51 * L / 200, 1000)"
    using L by (simp add: trackBar_def Let_def max_def)
  finally have v3: "barOf s3 5 = (51 * L / 400, 51 * L / 200, 1000)" .
  from start_docs_ready [OF c0 r0, of "silentTick 0"] obtain f where
    ef: "start_docs (silentTick 0) ?s0 = Inr f"
    and bf: "\<forall>i<48. barOf f i =
              trackBar (3 / 10) 200 (now (silentTick 0))
                (processAudioLevel_docs (real (unat (snapshot (silentTick 0) i)))) (barOf ?s0 i)"
    by blast
  have "barOf f 5 = trackBar (3 / 10) 200 2000 1 (0, 0, 0)"
    using bf b0 by (simp add: silentTick_def level_docs_silent)
  also have "\<dots> = (3 / 10, 3 / 10, 2000)"
    by (simp add: trackBar_def Let_def max_def)
  finally have vf: "barOf f 5 = (3 / 10, 3 / 10, 2000)" .
  have "run_docs [InitAudio True, Start loudTick, Stop] ?new = Inr ?s2"
    using e1 by (simp add: exec_docs_def)
  moreover have "run_docs [InitAudio True, Start loudTick, Stop, Start (silentTick 0)] ?new = Inr s3"
    using e1 e3 by (simp add: exec_docs_def)
  moreover have "run_docs [InitAudio True, Start (silentTick 0)] ?new = Inr f"
    using ef by (simp add: exec_docs_def)
  moreover have "barSmoothValues ?s2 ! 5 = 0" "15 < barPeaks ?s2 ! 5"
    using v2 L by (simp_all add: barOf_def)
  moreover have "6 < barSmoothValues s3 ! 5" using v3 L by (simp add: barOf_def)
  moreover have "barSmoothValues f ! 5 = 3 / 10" using vf by (simp add: barOf_def)
  ultimately show ?thesis by blast
qed

text \<open>
  What \<open>stop\<close> does reset: calling it twice gives the same state as calling it once, it
  ends the run, and the smoothed values, the history ring, the live particles, the rolling
  averages and the four band energies are zero or empty afterwards.
\<close>

lemma stop_resets:
  "stop_docs (stop_docs s) = stop_docs s \<and>
   \<not> isRunning (stop_docs s) \<and>
   barSmoothValues (stop_docs s) = replicate (length (barSmoothValues s)) 0 \<and>
   spectrumHistory (stop_docs s) = [] \<and>
   particles (stop_docs s) = [] \<and>
   rollingAverages (stop_docs s) = replicate (length (rollingAverages s)) 0 \<and>
   musicEnergy (stop_docs s) = 0 \<and> bassEnergy (stop_docs s) = 0 \<and>
   midEnergy (stop_docs s) = 0 \<and> trebleEnergy (stop_docs s) = 0 \<and>
   stop (stop v) = stop v \<and>
   \<not> isRunning (stop v) \<and>
   barSmoothValues (stop v) = replicate (length (barSmoothValues v)) 0 \<and>
   spectrumHistory (stop v) = []"
  by (simp add: stop_docs_twice stop_twice) (simp add: stop_docs_def stop_def)

text \<open>
  C3 fails on the code: \<open>stop\<close> zeroes the smoothed values and leaves the peaks of the
  previous run in place. After one loud tick and a stop, the smoothed value of bar 5 is 0
  and its peak is still above 15; a start on a silent tick then writes half of the decayed
  peak, more than 6, into the smoothed value that \<open>stop\<close> had zeroed, where a fresh
  visualiser shows 0.3 on the same tick.
\<close>

theorem C3_stop_leaves_stale_peaks:
  "\<exists>s s' f.
     run_docs [InitAudio True, Start loudTick, Stop] (new_ParticleVisualizer 800 200) = Inr s \<and>
     barSmoothValues s ! 5 = 0 \<and> 15 < barPeaks s ! 5 \<and>
     run_docs [InitAudio True, Start loudTick, Stop, Start (silentTick 0)]
       (new_ParticleVisualizer 800 200) = Inr s' \<and>
     6 < barSmoothValues s' ! 5 \<and>
     run_docs [InitAudio True, Start (silentTick 0)] (new_ParticleVisualizer 800 200) = Inr f \<and>
     barSmoothValues f ! 5 = 3 / 10"
  by (rule stale_peak_run)

lemma butlast_as_take:
  assumes "length h \<le> cap"
  shows "(if length (x # h) > cap then butlast (x # h) else x # h) = take cap (x # h)"
proof (cases "length (x # h) > cap")
  case True
  with assms have "cap = length h" by simp
  then show ?thesis using True by (simp add: butlast_conv_take)
next
  case False
  then show ?thesis by simp
qed

lemma history_fixed_capacity:
  assumes "length (spectrumHistory s) \<le> maxHistoryLayers s"
  shows "spectrumHistory (updateSpectrumHistory s)
           = take (maxHistoryLayers s) (barSmoothValues s # spectrumHistory s)"
  using butlast_as_take [OF assms] by (simp add: updateSpectrumHistory_def Let_def)

lemma history_docs_fixed_capacity:
  assumes "length (spectrumHistory s)
             \<le> (if fs then fullscreenHistoryLayers s else maxHistoryLayers s)"
  shows "spectrumHistory (updateSpectrumHistory_docs fs s)
           = take (if fs then fullscreenHistoryLayers s else maxHistoryLayers s)
               (barSmoothValues s # spectrumHistory s)"
  using butlast_as_take [OF assms] by (simp add: updateSpectrumHistory_docs_def Let_def)

lemma frames_docs_history:
  assumes "configured_docs s" and "isRunning s"
  shows "\<exists>s'. run_docs (replicate n (Frame t)) s = Inr s' \<and> configured_docs s' \<and>
           isRunning s' \<and>
           length (spectrumHistory s') =
             (if length (spectrumHistory s) \<le> (if fullscreen t then 15 else 10)
              then min (if fullscreen t then 15 else 10) (length (spectrumHistory s) + n)
              else length (spectrumHistory s))"
  using assms
proof (induction n arbitrary: s)
  case 0
  then show ?case by simp
next
  case (Suc n)
  from animate_docs_running [OF Suc.prems, of t] obtain s1 where
    e: "animate_docs t s = Inr s1" and c: "configured_docs s1" and on: "isRunning s1"
    and h: "spectrumHistory s1
             = (if length (barSmoothValues s1 # spectrumHistory s) > (if fullscreen t then 15 else 10)
                then butlast (barSmoothValues s1 # spectrumHistory s)
                else barSmoothValues s1 # spectrumHistory s)"
    by blast
  have l1: "length (spectrumHistory s1) =
              (if length (spectrumHistory s) + 1 > (if fullscreen t then 15 else 10)
               then length (spectrumHistory s) else length (spectrumHistory s) + 1)"
    by (simp add: h)
  from Suc.IH [OF c on] obtain s' where
    r: "run_docs (replicate n (Frame t)) s1 = Inr s'" and c': "configured_docs s'"
    and on': "isRunning s'"
    and l': "length (spectrumHistory s') =
             (if length (spectrumHistory s1) \<le> (if fullscreen t then 15 else 10)
              then min (if fullscreen t then 15 else 10) (length (spectrumHistory s1) + n)
              else length (spectrumHistory s1))"
    by blast
  have "run_docs (replicate (Suc n) (Frame t)) s = Inr s'"
    using e r by (simp add: exec_docs_def)
  moreover have "length (spectrumHistory s') =
             (if length (spectrumHistory s) \<le> (if fullscreen t then 15 else 10)
              then min (if fullscreen t then 15 else 10) (length (spectrumHistory s) + Suc n)
              else length (spectrumHistory s))"
    unfolding l' l1 by (auto simp: min_def)
  ultimately show ?case using c' on' by blast
qed

text \<open>
  C4 fails when the capacity shrinks: one entry is popped per update. After 15 ticks in
  fullscreen mode the ring holds 15 snapshots; two ticks out of fullscreen mode later the
  capacity is 10 and the ring still holds 15. (With the capacity fixed the ring is the
  newest snapshots first, cut at the capacity: \<open>history_docs_fixed_capacity\<close>.)
\<close>

theorem C4_shrunk_capacity_keeps_excess:
  "\<exists>s. run_docs
          ([InitAudio True, Start (loudTick\<lparr>fullscreen := True\<rparr>)]
            @ replicate 14 (Frame (loudTick\<lparr>fullscreen := True\<rparr>))
            @ replicate 2 (Frame loudTick))
          (new_ParticleVisualizer 800 200) = Inr s \<and>
        maxHistoryLayers s = 10 \<and> length (spectrumHistory s) = 15"
proof -
  let ?fs = "loudTick\<lparr>fullscreen := True\<rparr>"
  let ?new = "new_ParticleVisualizer 800 200"
  let ?s0 = "snd (initAudio True ?new)"
  have c0: "configured_docs ?s0" by (rule initAudio_docs_keeps [OF new_ParticleVisualizer_ok])
  have r0: "audioReady ?s0" by (simp add: initAudio_def)
  have h0: "spectrumHistory ?s0 = []"
    by (simp add: initAudio_def new_ParticleVisualizer_def setupCanvas_def Let_def)
  from start_docs_ready [OF c0 r0, of ?fs] obtain s1 where
    e1: "start_docs ?fs ?s0 = Inr s1" and c1: "configured_docs s1" and on1: "isRunning s1"
    and h1: "spectrumHistory s1
             = (if length (barSmoothValues s1 # spectrumHistory ?s0) > (if fullscreen ?fs then 15 else 10)
                then butlast (barSmoothValues s1 # spectrumHistory ?s0)
                else barSmoothValues s1 # spectrumHistory ?s0)"
    by blast
  have l1: "length (spectrumHistory s1) = 1" by (simp add: h1 h0)
  from frames_docs_history [OF c1 on1, of 14 ?fs] obtain s2 where
    e2: "run_docs (replicate 14 (Frame ?fs)) s1 = Inr s2" and c2: "configured_docs s2"
    and on2: "isRunning s2" and l2: "length (spectrumHistory s2) = 15"
    by (auto simp: l1)
  from frames_docs_history [OF c2 on2, of 2 loudTick] obtain s3 where
    e3: "run_docs (replicate 2 (Frame loudTick)) s2 = Inr s3" and c3: "configured_docs s3"
    and l3: "length (spectrumHistory s3) = 15"
    by (auto simp: l2 loudTick_def)
  have "run_docs [InitAudio True, Start ?fs] ?new = Inr s1"
    using e1 by (simp add: exec_docs_def)
  then have "run_docs ([InitAudio True, Start ?fs] @ replicate 14 (Frame ?fs)
                @ replicate 2 (Frame loudTick)) ?new = Inr s3"
    using e2 e3 by (simp only: run_docs_append sum.case)
  moreover have "maxHistoryLayers s3 = 10" using c3 by (simp add: configured_docs_def)
  ultimately show ?thesis using l3 by blast
qed

section \<open>A bar under silence\<close>

lemma level_silent: "processAudioLevel 0 = 1"
  by (simp add: processAudioLevel_def)

lemma trackBar_silent:
  assumes "barInRange smooth peak"
    and "trackBar (3 / 10) hold t 1 (smooth, peak, pt) = (d, p', t')"
  shows "max 0 (1 - d) \<le> (7 / 10) * max 0 (1 - smooth) \<and>
         max 0 (p' - 1) \<le> (98 / 100) * max 0 (peak - 1)"
proof -
  define s1 where "s1 = smooth + (1 - smooth) * (3 / 10)"
  define p1 where "p1 = (if s1 > peak then s1
                         else if t - pt > hold then max (peak * (85 / 100)) s1
                         else max (peak * (98 / 100)) s1)"
  have s1': "s1 = (7 / 10) * smooth + 3 / 10"
    by (simp add: s1_def field_simps)
  have r: "0 \<le> smooth" "smooth \<le> peak" "peak \<le> 100"
    using assms(1) by (simp_all add: barInRange_def)
  have up: "p1 \<le> max (peak * (98 / 100)) s1"
    using r unfolding p1_def by (auto simp: max_def)
  have "trackBar (3 / 10) hold t 1 (smooth, peak, pt)
          = (max s1 (p1 * (1 / 2)), p1, if s1 > peak then t else pt)"
    by (simp only: trackBar_def s1_def p1_def Let_def prod.case)
  with assms(2) have d: "d = max s1 (p1 * (1 / 2))" and p: "p' = p1" by auto
  have "1 - d \<le> (7 / 10) * (1 - smooth)"
    unfolding d s1' by (simp add: max_def field_simps)
  then have a: "max 0 (1 - d) \<le> (7 / 10) * max 0 (1 - smooth)"
    by (auto simp: max_def)
  have "p1 \<le> peak * (98 / 100) \<or> p1 \<le> s1"
    using up by (simp add: le_max_iff_disj)
  then have "p1 - 1 \<le> peak * (98 / 100) - 1 \<or> p1 - 1 \<le> (7 / 10) * (peak - 1)"
    using r unfolding s1' by auto
  then have b: "max 0 (p' - 1) \<le> (98 / 100) * max 0 (peak - 1)"
    unfolding p by (auto simp: max_def)
  from a b show ?thesis by simp
qed

lemma geometric_to_one:
  fixes f :: "nat \<Rightarrow> real"
  assumes lo: "\<forall>n. 1 - f n \<le> a ^ n * L" and hi: "\<forall>n. f n - 1 \<le> b ^ n * E"
    and a: "0 \<le> a" "a < 1" and b: "0 \<le> b" "b < 1"
  shows "f \<longlonglongrightarrow> 1"
proof (rule real_tendsto_sandwich)
  show "\<forall>\<^sub>F n in sequentially. 1 - a ^ n * L \<le> f n"
    using lo by (intro always_eventually allI) (simp add: algebra_simps)
  show "\<forall>\<^sub>F n in sequentially. f n \<le> 1 + b ^ n * E"
    using hi by (intro always_eventually allI) (simp add: algebra_simps)
  have "(\<lambda>n. a ^ n) \<longlonglongrightarrow> 0" by (rule LIMSEQ_realpow_zero [OF a])
  then have "(\<lambda>n. a ^ n * L) \<longlonglongrightarrow> 0 * L"
    by (rule tendsto_mult_right)
  then have "(\<lambda>n. 1 - a ^ n * L) \<longlonglongrightarrow> 1 - 0 * L"
    by (intro tendsto_diff tendsto_const)
  then show "(\<lambda>n. 1 - a ^ n * L) \<longlonglongrightarrow> 1" by simp
  have "(\<lambda>n. b ^ n) \<longlonglongrightarrow> 0" by (rule LIMSEQ_realpow_zero [OF b])
  then have "(\<lambda>n. b ^ n * E) \<longlonglongrightarrow> 0 * E"
    by (rule tendsto_mult_right)
  then have "(\<lambda>n. 1 + b ^ n * E) \<longlonglongrightarrow> 1 + 0 * E"
    by (intro tendsto_add tendsto_const)
  then show "(\<lambda>n. 1 + b ^ n * E) \<longlonglongrightarrow> 1" by simp
qed


lemma frame_step:
  assumes cfg: "configured 64 s" and rng: "barsInRange s" and on: "isRunning s"
    and i: "i < 64"
  shows "\<exists>s'. animate t s = Inr s' \<and> configured 64 s' \<and> barsInRange s' \<and> isRunning s' \<and>
           barOf s' i = trackBar (3 / 10) 200 (now t)
                          (processAudioLevel (real (unat (snapshot t i)))) (barOf s i)"
proof -
  from animate_running [OF cfg on, of t] obtain A B C where
    eq: "animate t s
            = Inr (s\<lparr>barSmoothValues := A, barPeaks := B, barPeakTimes := C,
                     spectrumHistory :=
                       (if length (A # spectrumHistory s) > maxHistoryLayers s
                        then butlast (A # spectrumHistory s) else A # spectrumHistory s),
                     animationId := Some (frameId t)\<rparr>)"
    and bars: "\<forall>i<64. (A ! i, B ! i, C ! i) =
              trackBar (3 / 10) 200 (now t)
                (processAudioLevel (real (unat (snapshot t i)))) (barOf s i)"
    by blast
  from animate_keeps [OF cfg rng, of t] obtain s' where
    k: "animate t s = Inr s'" "configured 64 s'" "barsInRange s'" "isRunning s' = isRunning s"
    by blast
  have "barOf s' i = (A ! i, B ! i, C ! i)"
    using k(1) eq by (auto simp: barOf_def)
  with bars i k on show ?thesis by simp
qed

lemma silence_converges:
  assumes r0: "run events new_AudioVisualizer = Inr s0" and on0: "isRunning s0"
    and i: "i < barCount s0" and quiet: "\<forall>n. snapshot (ticks n) i = 0"
  shows "\<exists>st. st 0 = s0 \<and>
           (\<forall>n. run (events @ map (\<lambda>k. Frame (ticks k)) [0..<n]) new_AudioVisualizer
                  = Inr (st n)) \<and>
           (\<forall>n. 0 \<le> barSmoothValues (st n) ! i \<and>
                barSmoothValues (st n) ! i \<le> barPeaks (st n) ! i \<and>
                1 - barSmoothValues (st n) ! i
                  \<le> (7 / 10) ^ n * max 0 (1 - barSmoothValues s0 ! i) \<and>
                barPeaks (st n) ! i - 1
                  \<le> (98 / 100) ^ n * max 0 (barPeaks s0 ! i - 1)) \<and>
           (\<lambda>n. barSmoothValues (st n) ! i) \<longlonglongrightarrow> 1 \<and>
           (\<lambda>n. barPeaks (st n) ! i) \<longlonglongrightarrow> 1"
proof -
  define frames where "frames n = map (\<lambda>k. Frame (ticks k)) [0..<n]" for n
  define st where
    "st n = (case run (events @ frames n) new_AudioVisualizer of Inr s \<Rightarrow> s | Inl e \<Rightarrow> s0)" for n
  from run_keeps [of new_AudioVisualizer events] new_AudioVisualizer_ok r0
  have c0: "configured 64 s0" and g0: "barsInRange s0" by auto
  have i64: "i < 64" using c0 i by (simp add: configured_def)
  have st0: "st 0 = s0" by (simp add: st_def frames_def r0)
  have fs: "frames (Suc n) = frames n @ [Frame (ticks n)]" for n
    by (simp add: frames_def)
  have inv: "run (events @ frames n) new_AudioVisualizer = Inr (st n) \<and>
             configured 64 (st n) \<and> barsInRange (st n) \<and> isRunning (st n)" for n
  proof (induction n)
    case 0
    then show ?case using r0 c0 g0 on0 st0 by (simp add: frames_def)
  next
    case (Suc n)
    then have r: "run (events @ frames n) new_AudioVisualizer = Inr (st n)"
      and c: "configured 64 (st n)" and g: "barsInRange (st n)" and on: "isRunning (st n)"
      by simp_all
    from frame_step [OF c g on i64, of "ticks n"] obtain s' where
      e: "animate (ticks n) (st n) = Inr s'" and k: "configured 64 s'" "barsInRange s'"
        "isRunning s'"
      by blast
    have "run (events @ frames (Suc n)) new_AudioVisualizer = Inr s'"
      unfolding fs append_assoc [symmetric]
      by (subst run_append) (simp add: r exec_def e)
    then show ?case using k by (simp add: st_def)
  qed
  have step: "barOf (st (Suc n)) i
                = trackBar (3 / 10) 200 (now (ticks n)) 1 (barOf (st n) i)" for n
  proof -
    from inv [of n] have r: "run (events @ frames n) new_AudioVisualizer = Inr (st n)"
      and c: "configured 64 (st n)" and g: "barsInRange (st n)" and on: "isRunning (st n)"
      by simp_all
    from frame_step [OF c g on i64, of "ticks n"] obtain s' where
      e: "animate (ticks n) (st n) = Inr s'"
      and b: "barOf s' i = trackBar (3 / 10) 200 (now (ticks n))
                          (processAudioLevel (real (unat (snapshot (ticks n) i)))) (barOf (st n) i)"
      by blast
    have "run (events @ frames (Suc n)) new_AudioVisualizer = Inr s'"
      unfolding fs append_assoc [symmetric]
      by (subst run_append) (simp add: r exec_def e)
    then have "st (Suc n) = s'" by (simp add: st_def)
    then show ?thesis using b quiet by (simp add: level_silent)
  qed
  have rng: "barInRange (barSmoothValues (st n) ! i) (barPeaks (st n) ! i)" for n
    using inv [of n] i64 by (simp add: barsInRange_def configured_def)
  have shrink: "max 0 (1 - barSmoothValues (st (Suc n)) ! i)
                  \<le> (7 / 10) * max 0 (1 - barSmoothValues (st n) ! i) \<and>
                max 0 (barPeaks (st (Suc n)) ! i - 1)
                  \<le> (98 / 100) * max 0 (barPeaks (st n) ! i - 1)" for n
  proof -
    have "trackBar (3 / 10) 200 (now (ticks n)) 1
            (barSmoothValues (st n) ! i, barPeaks (st n) ! i, barPeakTimes (st n) ! i)
          = (barSmoothValues (st (Suc n)) ! i, barPeaks (st (Suc n)) ! i,
             barPeakTimes (st (Suc n)) ! i)"
      using step [of n] by (simp add: barOf_def)
    from trackBar_silent [OF rng this] show ?thesis .
  qed
  have geo: "max 0 (1 - barSmoothValues (st n) ! i)
               \<le> (7 / 10) ^ n * max 0 (1 - barSmoothValues s0 ! i) \<and>
             max 0 (barPeaks (st n) ! i - 1)
               \<le> (98 / 100) ^ n * max 0 (barPeaks s0 ! i - 1)" for n
  proof (induction n)
    case 0
    then show ?case by (simp add: st0)
  next
    case (Suc n)
    have "max 0 (1 - barSmoothValues (st (Suc n)) ! i)
            \<le> (7 / 10) * max 0 (1 - barSmoothValues (st n) ! i)"
      using shrink [of n] by simp
    also have "\<dots> \<le> (7 / 10) * ((7 / 10) ^ n * max 0 (1 - barSmoothValues s0 ! i))"
      using Suc.IH by (intro mult_left_mono) simp_all
    finally have a: "max 0 (1 - barSmoothValues (st (Suc n)) ! i)
            \<le> (7 / 10) ^ Suc n * max 0 (1 - barSmoothValues s0 ! i)"
      by simp
    have "max 0 (barPeaks (st (Suc n)) ! i - 1)
            \<le> (98 / 100) * max 0 (barPeaks (st n) ! i - 1)"
      using shrink [of n] by simp
    also have "\<dots> \<le> (98 / 100) * ((98 / 100) ^ n * max 0 (barPeaks s0 ! i - 1))"
      using Suc.IH by (intro mult_left_mono) simp_all
    finally have b: "max 0 (barPeaks (st (Suc n)) ! i - 1)
            \<le> (98 / 100) ^ Suc n * max 0 (barPeaks s0 ! i - 1)"
      by simp
    from a b show ?case by simp
  qed
  have bounds: "0 \<le> barSmoothValues (st n) ! i \<and>
                barSmoothValues (st n) ! i \<le> barPeaks (st n) ! i \<and>
                1 - barSmoothValues (st n) ! i
                  \<le> (7 / 10) ^ n * max 0 (1 - barSmoothValues s0 ! i) \<and>
                barPeaks (st n) ! i - 1
                  \<le> (98 / 100) ^ n * max 0 (barPeaks s0 ! i - 1)" for n
    using geo [of n] rng [of n] by (simp add: barInRange_def)
  have sm: "(\<lambda>n. barSmoothValues (st n) ! i) \<longlonglongrightarrow> 1"
  proof (rule geometric_to_one)
    show "\<forall>n. 1 - barSmoothValues (st n) ! i
               \<le> (7 / 10) ^ n * max 0 (1 - barSmoothValues s0 ! i)"
      using bounds by blast
    show "\<forall>n. barSmoothValues (st n) ! i - 1
               \<le> (98 / 100) ^ n * max 0 (barPeaks s0 ! i - 1)"
    proof
      fix n
      have "barSmoothValues (st n) ! i - 1 \<le> barPeaks (st n) ! i - 1"
        using bounds [of n] by simp
      also have "\<dots> \<le> (98 / 100) ^ n * max 0 (barPeaks s0 ! i - 1)"
        using bounds [of n] by simp
      finally show "barSmoothValues (st n) ! i - 1
               \<le> (98 / 100) ^ n * max 0 (barPeaks s0 ! i - 1)" .
    qed
  qed simp_all
  have pk: "(\<lambda>n. barPeaks (st n) ! i) \<longlonglongrightarrow> 1"
  proof (rule geometric_to_one)
    show "\<forall>n. 1 - barPeaks (st n) ! i
               \<le> (7 / 10) ^ n * max 0 (1 - barSmoothValues s0 ! i)"
    proof
      fix n
      have "1 - barPeaks (st n) ! i \<le> 1 - barSmoothValues (st n) ! i"
        using bounds [of n] by simp
      also have "\<dots> \<le> (7 / 10) ^ n * max 0 (1 - barSmoothValues s0 ! i)"
        using bounds [of n] by simp
      finally show "1 - barPeaks (st n) ! i
               \<le> (7 / 10) ^ n * max 0 (1 - barSmoothValues s0 ! i)" .
    qed
    show "\<forall>n. barPeaks (st n) ! i - 1
               \<le> (98 / 100) ^ n * max 0 (barPeaks s0 ! i - 1)"
      using bounds by blast
  qed simp_all
  have runs: "\<forall>n. run (events @ map (\<lambda>k. Frame (ticks k)) [0..<n]) new_AudioVisualizer
                  = Inr (st n)"
    using inv by (simp add: frames_def)
  show ?thesis
    using st0 runs bounds sm pk by (intro exI [of _ st]) blast
qed


text \<open>
  C2 as the specification states it fails. After one loud tick, on silent ticks for ever,
  every state is defined and the smoothed value of bar 5 does not converge to 0.
\<close>

theorem C2_silence_counterexample:
  "\<not> (\<exists>st. (\<forall>n. run ([InitAudio True, Start loudTick] @ map (\<lambda>k. Frame (silentTick k)) [0..<n])
                     new_AudioVisualizer = Inr (st n)) \<and>
             (\<lambda>n. barSmoothValues (st n) ! 5) \<longlonglongrightarrow> 0)"
proof
  assume "\<exists>st. (\<forall>n. run ([InitAudio True, Start loudTick] @ map (\<lambda>k. Frame (silentTick k)) [0..<n])
                     new_AudioVisualizer = Inr (st n)) \<and>
             (\<lambda>n. barSmoothValues (st n) ! 5) \<longlonglongrightarrow> 0"
  then obtain st where
    runs: "\<And>n. run ([InitAudio True, Start loudTick] @ map (\<lambda>k. Frame (silentTick k)) [0..<n])
                     new_AudioVisualizer = Inr (st n)"
    and zero: "(\<lambda>n. barSmoothValues (st n) ! 5) \<longlonglongrightarrow> 0"
    by blast
  from first_loud_tick obtain s0 where
    r0: "run [InitAudio True, Start loudTick] new_AudioVisualizer = Inr s0"
    and n0: "barCount s0 = 64" and on0: "isRunning s0"
    by blast
  have i: "5 < barCount s0" using n0 by simp
  have quiet: "\<forall>n. snapshot (silentTick n) 5 = 0" by (simp add: silentTick_def)
  from silence_converges [OF r0 on0 i quiet] obtain st' where
    runs': "\<And>n. run ([InitAudio True, Start loudTick] @ map (\<lambda>k. Frame (silentTick k)) [0..<n])
                     new_AudioVisualizer = Inr (st' n)"
    and one: "(\<lambda>n. barSmoothValues (st' n) ! 5) \<longlonglongrightarrow> 1"
    by blast
  have "st' n = st n" for n using runs [of n] runs' [of n] by simp
  then have "(\<lambda>n. barSmoothValues (st n) ! 5) \<longlonglongrightarrow> 1" using one by simp
  from LIMSEQ_unique [OF this zero] show False by simp
qed

text \<open>
  C2, amended. The level of a zero input is the floor 1 of \<open>processAudioLevel\<close>, not 0.
  From any running state that a sequence of events reaches, if the bin of a bar is zero
  on every later tick (with 128 bins and 64 bars the bucket of bar \<open>i\<close> is bin \<open>i\<close>),
  whatever the times of the ticks, then every tick succeeds, the smoothed value of the bar
  converges to 1 and so does its peak; the peak's excess over 1 shrinks geometrically, by
  the factor 0.98 per tick at least, the smoothed value's shortfall below 1 by the factor
  0.7, and neither value goes below 0.
\<close>

theorem C2_silence_settles_at_floor:
  assumes "run events new_AudioVisualizer = Inr s0" and "isRunning s0"
    and "i < barCount s0" and "\<forall>n. snapshot (ticks n) i = 0"
  shows "\<exists>st. st 0 = s0 \<and>
           (\<forall>n. run (events @ map (\<lambda>k. Frame (ticks k)) [0..<n]) new_AudioVisualizer
                  = Inr (st n)) \<and>
           (\<forall>n. 0 \<le> barSmoothValues (st n) ! i \<and>
                barSmoothValues (st n) ! i \<le> barPeaks (st n) ! i \<and>
                1 - barSmoothValues (st n) ! i
                  \<le> (7 / 10) ^ n * max 0 (1 - barSmoothValues s0 ! i) \<and>
                barPeaks (st n) ! i - 1
                  \<le> (98 / 100) ^ n * max 0 (barPeaks s0 ! i - 1)) \<and>
           (\<lambda>n. barSmoothValues (st n) ! i) \<longlonglongrightarrow> 1 \<and>
           (\<lambda>n. barPeaks (st n) ! i) \<longlonglongrightarrow> 1"
  by (rule silence_converges [OF assms])

theorem C2_silence_settles_at_floor_witness:
  "\<exists>s0 st. run [InitAudio True, Start loudTick] new_AudioVisualizer = Inr s0 \<and>
     barSmoothValues s0 ! 5 = 30 \<and> barPeaks s0 ! 5 = 30 \<and> st 0 = s0 \<and>
     (\<forall>n. run ([InitAudio True, Start loudTick] @ map (\<lambda>k. Frame (silentTick k)) [0..<n])
             new_AudioVisualizer = Inr (st n)) \<and>
     (\<forall>n. barPeaks (st n) ! 5 - 1 \<le> (98 / 100) ^ n * 29) \<and>
     (\<lambda>n. barSmoothValues (st n) ! 5) \<longlonglongrightarrow> 1 \<and>
     (\<lambda>n. barPeaks (st n) ! 5) \<longlonglongrightarrow> 1"
proof -
  from first_loud_tick obtain s0 where
    r0: "run [InitAudio True, Start loudTick] new_AudioVisualizer = Inr s0"
    and n0: "barCount s0 = 64" and on0: "isRunning s0" and b0: "barOf s0 5 = (30, 30, 1000)"
    by blast
  have i: "5 < barCount s0" using n0 by simp
  have quiet: "\<forall>n. snapshot (silentTick n) 5 = 0" by (simp add: silentTick_def)
  have v: "barSmoothValues s0 ! 5 = 30" "barPeaks s0 ! 5 = 30"
    using b0 by (simp_all add: barOf_def)
  from C2_silence_settles_at_floor [OF r0 on0 i quiet] obtain st where
    "st 0 = s0"
    "\<forall>n. run ([InitAudio True, Start loudTick] @ map (\<lambda>k. Frame (silentTick k)) [0..<n])
             new_AudioVisualizer = Inr (st n)"
    "\<forall>n. barPeaks (st n) ! 5 - 1 \<le> (98 / 100) ^ n * max 0 (barPeaks s0 ! 5 - 1)"
    "(\<lambda>n. barSmoothValues (st n) ! 5) \<longlonglongrightarrow> 1"
    "(\<lambda>n. barPeaks (st n) ! 5) \<longlonglongrightarrow> 1"
    by blast
  then show ?thesis using r0 v
    by (intro exI [of _ s0] exI [of _ st]) simp
qed

end
